theory Spec2Isabelle
  imports Main "HOL-Library.Sublist" "HOL-Library.List_Lexorder" "HOL-Library.Char_ord"
begin

section \<open>Python values, exceptions and string methods\<close>

text \<open>
  The module \<^verbatim>\<open>flake8/option_parser.py\<close> is embedded function by function. Python
  strings are \<^typ>\<open>string\<close>; a name that may be \<^verbatim>\<open>None\<close> is a \<^typ>\<open>string option\<close>;
  every \<^verbatim>\<open>raise\<close> is the \<open>Inl\<close> branch of a sum.
\<close>

datatype pyval = PStr string | PInt int | PBool bool | PList "string list"

datatype error =
    ValueError
  | AttributeError
  | TypeError
  | IndexError
  | NoSectionError
  | NoOptionError
  | ParsingError
  | OptParseError

text \<open>\<^verbatim>\<open>s.lstrip(c)\<close>, \<^verbatim>\<open>s.rstrip(c)\<close>, \<^verbatim>\<open>s.strip(c)\<close> and \<^verbatim>\<open>s.replace(a, b)\<close> for
  one-character arguments.\<close>

definition str_lstrip :: "char \<Rightarrow> string \<Rightarrow> string" where
  "str_lstrip c s = dropWhile (\<lambda>x. x = c) s"

definition str_rstrip :: "char \<Rightarrow> string \<Rightarrow> string" where
  "str_rstrip c s = rev (dropWhile (\<lambda>x. x = c) (rev s))"

definition str_strip :: "char \<Rightarrow> string \<Rightarrow> string" where
  "str_strip c s = str_rstrip c (str_lstrip c s)"

definition str_replace :: "char \<Rightarrow> char \<Rightarrow> string \<Rightarrow> string" where
  "str_replace a b s = map (\<lambda>x. if x = a then b else x) s"

text \<open>Truth value of a name that is a string or \<^verbatim>\<open>None\<close>: both \<^verbatim>\<open>None\<close> and
  the empty string are false.\<close>

definition truthy :: "string option \<Rightarrow> bool" where
  "truthy v = (case v of None \<Rightarrow> False | Some s \<Rightarrow> s \<noteq> [])"

section \<open>Option\<close>

text \<open>The arguments of \<^verbatim>\<open>Option.__init__\<close>, each with its default (\<^verbatim>\<open>None\<close> or
  \<^verbatim>\<open>False\<close>) when the caller leaves it out.\<close>

record Option_args =
  arg_short_option_name :: "string option"
  arg_long_option_name :: "string option"
  arg_action :: "string option"
  arg_default :: "pyval option"
  arg_type :: "string option"
  arg_dest :: "string option"
  arg_nargs :: "nat option"
  arg_const :: "pyval option"
  arg_choices :: "string list option"
  arg_callback :: "string option"
  arg_callback_args :: "pyval option"
  arg_callback_kwargs :: "pyval option"
  arg_help :: "string option"
  arg_metavar :: "string option"
  arg_parse_from_config :: bool
  arg_comma_separated_list :: bool

text \<open>\<^verbatim>\<open>self.option_kwargs\<close>: nine of the keyword arguments (\<^verbatim>\<open>nargs\<close>, \<^verbatim>\<open>const\<close>
  and \<^verbatim>\<open>choices\<close> are accepted and dropped). The \<^verbatim>\<open>setattr\<close> loop makes the same
  nine values attributes of the object, so \<open>action (option_kwargs opt)\<close> is
  \<^verbatim>\<open>opt.action\<close>.\<close>

record Option_kwargs =
  action :: "string option"
  default_value :: "pyval option"
  type_name :: "string option"
  dest :: "string option"
  callback :: "string option"
  callback_args :: "pyval option"
  callback_kwargs :: "pyval option"
  help_text :: "string option"
  metavar :: "string option"

text \<open>The object. \<open>config_name = None\<close> says that the attribute was never set.\<close>

record Option =
  short_option_name :: "string option"
  long_option_name :: "string option"
  option_args :: "string list"
  option_kwargs :: Option_kwargs
  parse_from_config :: bool
  comma_separated_list :: bool
  config_name :: "string option"

text \<open>\<^verbatim>\<open>filter(None, (short_option_name, long_option_name))\<close>\<close>

definition filter_None :: "string option list \<Rightarrow> string list" where
  "filter_None vs = concat (map (\<lambda>v. case v of None \<Rightarrow> [] | Some s \<Rightarrow> if s = [] then [] else [s]) vs)"

definition Option_init :: "Option_args \<Rightarrow> error + Option" where
  "Option_init a =
     (let self = \<lparr> short_option_name = arg_short_option_name a,
                   long_option_name = arg_long_option_name a,
                   option_args = filter_None [arg_short_option_name a, arg_long_option_name a],
                   option_kwargs = \<lparr> action = arg_action a,
                                     default_value = arg_default a,
                                     type_name = arg_type a,
                                     dest = arg_dest a,
                                     callback = arg_callback a,
                                     callback_args = arg_callback_args a,
                                     callback_kwargs = arg_callback_kwargs a,
                                     help_text = arg_help a,
                                     metavar = arg_metavar a \<rparr>,
                   parse_from_config = arg_parse_from_config a,
                   comma_separated_list = arg_comma_separated_list a,
                   config_name = None \<rparr>
      in if arg_parse_from_config a then
           (case arg_long_option_name a of
              None \<Rightarrow> Inl ValueError
            | Some n \<Rightarrow>
                if n = [] then Inl ValueError
                else Inr (self \<lparr> config_name :=
                       Some (str_replace (CHR ''-'') (CHR ''_'') (str_strip (CHR ''-'') n)) \<rparr>))
         else Inr self)"

text \<open>Reading \<^verbatim>\<open>option.config_name\<close>: an \<^verbatim>\<open>AttributeError\<close> when the attribute is
  not set.\<close>

definition getattr_config_name :: "Option \<Rightarrow> error + string" where
  "getattr_config_name opt =
     (case config_name opt of None \<Rightarrow> Inl AttributeError | Some n \<Rightarrow> Inr n)"

text \<open>\<^verbatim>\<open>to_optparse\<close> hands the positional and keyword arguments to
  \<^verbatim>\<open>optparse.Option\<close>. \<open>option_args\<close> holds what \<^verbatim>\<open>self.option_args\<close> has still to
  give: under Python 2 \<^verbatim>\<open>filter\<close> made a tuple, which the call leaves as it is; under
  Python 3 it made an iterator, which \<^verbatim>\<open>*self.option_args\<close> runs to its end, so the
  object is left with none. The function returns the arguments handed over, and the
  object as the call leaves it.\<close>

type_synonym optparse_Option = "string list \<times> Option_kwargs"

definition to_optparse :: "bool \<Rightarrow> Option \<Rightarrow> optparse_Option \<times> Option" where
  "to_optparse python3 opt =
     ((option_args opt, option_kwargs opt),
      (if python3 then opt \<lparr> option_args := [] \<rparr> else opt))"

text \<open>A call that leaves out every argument.\<close>

definition no_args :: Option_args where
  "no_args = \<lparr> arg_short_option_name = None, arg_long_option_name = None,
                arg_action = None, arg_default = None, arg_type = None, arg_dest = None,
                arg_nargs = None, arg_const = None, arg_choices = None,
                arg_callback = None, arg_callback_args = None, arg_callback_kwargs = None,
                arg_help = None, arg_metavar = None,
                arg_parse_from_config = False, arg_comma_separated_list = False \<rparr>"

text \<open>The derived key as the specification words it: the leading dashes stripped, every
  dash that is left replaced by an underscore.\<close>

definition spec_config_key :: "string \<Rightarrow> string" where
  "spec_config_key n = str_replace (CHR ''-'') (CHR ''_'') (str_lstrip (CHR ''-'') n)"

section \<open>Paths: \<^verbatim>\<open>os.path\<close> on a POSIX platform\<close>

text \<open>
  \<^verbatim>\<open>os.path\<close> is the standard library's \<^verbatim>\<open>posixpath\<close>; the functions the module
  calls are transcribed from it. \<^verbatim>\<open>s.split(c)\<close> and \<^verbatim>\<open>sep.join(ws)\<close> first.
\<close>

fun str_split :: "char \<Rightarrow> string \<Rightarrow> string list" where
  "str_split c [] = [[]]"
| "str_split c (x # xs) =
     (if x = c then [] # str_split c xs
      else (case str_split c xs of [] \<Rightarrow> [[x]] | w # ws \<Rightarrow> (x # w) # ws))"

fun str_join :: "string \<Rightarrow> string list \<Rightarrow> string" where
  "str_join sep [] = []"
| "str_join sep [w] = w"
| "str_join sep (w # ws) = w @ sep @ str_join sep ws"

definition isabs :: "string \<Rightarrow> bool" where
  "isabs p = (case p of [] \<Rightarrow> False | c # _ \<Rightarrow> c = CHR ''/'')"

text \<open>\<^verbatim>\<open>os.path.join(a, b)\<close>\<close>

definition posix_join :: "string \<Rightarrow> string \<Rightarrow> string" where
  "posix_join a b =
     (if isabs b then b
      else if a = [] \<or> last a = CHR ''/'' then a @ b
      else a @ ''/'' @ b)"

text \<open>\<^verbatim>\<open>os.path.split(p)\<close>: the text after the last slash is the tail; the head is
  the text up to it, its trailing slashes stripped unless it is slashes only.\<close>

definition posix_split :: "string \<Rightarrow> string \<times> string" where
  "posix_split p =
     (let tl_part = rev (takeWhile (\<lambda>x. x \<noteq> CHR ''/'') (rev p));
          hd_part = rev (dropWhile (\<lambda>x. x \<noteq> CHR ''/'') (rev p))
      in (if hd_part \<noteq> [] \<and> hd_part \<noteq> replicate (length hd_part) (CHR ''/'')
          then str_rstrip (CHR ''/'') hd_part else hd_part,
          tl_part))"

text \<open>\<^verbatim>\<open>os.path.normpath(path)\<close>: the loop over the components, then the whole.\<close>

definition normpath_step :: "nat \<Rightarrow> string list \<Rightarrow> string \<Rightarrow> string list" where
  "normpath_step initial_slashes new_comps part =
     (if part = [] \<or> part = ''.'' then new_comps
      else if part \<noteq> ''..'' \<or> (initial_slashes = 0 \<and> new_comps = [])
                \<or> (new_comps \<noteq> [] \<and> last new_comps = ''..'')
           then new_comps @ [part]
      else if new_comps \<noteq> [] then butlast new_comps
      else new_comps)"

definition count_initial_slashes :: "string \<Rightarrow> nat" where
  "count_initial_slashes path =
     (if isabs path
      then (if take 2 path = ''//'' \<and> take 3 path \<noteq> ''///'' then 2 else 1)
      else 0)"

definition normpath :: "string \<Rightarrow> string" where
  "normpath path =
     (if path = [] then ''.''
      else
        let initial_slashes = count_initial_slashes path;
            comps = foldl (normpath_step initial_slashes) [] (str_split (CHR ''/'') path);
            joined = replicate initial_slashes (CHR ''/'') @ str_join ''/'' comps
        in if joined = [] then ''.'' else joined)"

text \<open>\<^verbatim>\<open>os.path.abspath(path)\<close>, the current directory \<^verbatim>\<open>os.getcwd()\<close> a parameter.\<close>

definition abspath :: "string \<Rightarrow> string \<Rightarrow> string" where
  "abspath cwd path = normpath (if isabs path then path else posix_join cwd path)"

text \<open>\<^verbatim>\<open>os.path.commonprefix(m)\<close>: the least and the greatest string of the list are
  compared character by character. \<^verbatim>\<open>s2[i]\<close> past the end of \<^verbatim>\<open>s2\<close> would raise.\<close>

fun commonprefix_scan :: "string \<Rightarrow> string \<Rightarrow> error + string" where
  "commonprefix_scan [] s2 = Inr []"
| "commonprefix_scan (c # s1) [] = Inl IndexError"
| "commonprefix_scan (c # s1) (d # s2) =
     (if c \<noteq> d then Inr []
      else (case commonprefix_scan s1 s2 of Inl e \<Rightarrow> Inl e | Inr r \<Rightarrow> Inr (c # r)))"

definition commonprefix :: "string list \<Rightarrow> error + string" where
  "commonprefix m =
     (case m of
        [] \<Rightarrow> Inr []
      | x # xs \<Rightarrow> commonprefix_scan (foldl min x xs) (foldl max x xs))"

section \<open>The environment of a run\<close>

text \<open>
  What the module reads from outside itself: the Python version (\<^verbatim>\<open>sys.version_info\<close>
  at least 3.0 or not), the platform, the environment variable,
  the home directory expansion, the working directory, the file system, and the
  collaborators that are not part of the module (the parser of \<^verbatim>\<open>optparse\<close>, the
  conversions of \<^verbatim>\<open>getint\<close> and \<^verbatim>\<open>getboolean\<close>, and
  \<^verbatim>\<open>utils.parse_comma_separated_list\<close>). A configuration file is kept as what
  \<^verbatim>\<open>RawConfigParser\<close> makes of it: missing, present but not to be opened, present
  and rejected by the parser, or present with its sections of options.
\<close>

type_synonym ini_section = "(string \<times> string) list"
type_synonym config = "(string \<times> ini_section) list"

datatype fs_entry = Missing | Unreadable | Malformed | Ini config

record env =
  python3 :: bool
  sys_platform :: string
  XDG_CONFIG_HOME :: "string option"
  expanduser :: "string \<Rightarrow> string"
  getcwd :: string
  files :: "string \<Rightarrow> fs_entry"
  str_to_int :: "string \<Rightarrow> int option"
  str_to_boolean :: "string \<Rightarrow> bool option"
  parse_comma_separated_list :: "pyval \<Rightarrow> error + pyval"
  optparse_add_option :: "optparse_Option list \<Rightarrow> optparse_Option \<Rightarrow> error + optparse_Option list"

section \<open>Dictionaries\<close>

text \<open>A dictionary is an association list in insertion order with one entry per key.\<close>

fun dict_set :: "('k \<times> 'v) list \<Rightarrow> 'k \<Rightarrow> 'v \<Rightarrow> ('k \<times> 'v) list" where
  "dict_set [] k v = [(k, v)]"
| "dict_set ((k', v') # d) k v = (if k' = k then (k, v) # d else (k', v') # dict_set d k v)"

definition dict_setdefault :: "('k \<times> 'v) list \<Rightarrow> 'k \<Rightarrow> 'v \<Rightarrow> ('k \<times> 'v) list" where
  "dict_setdefault d k v = (case map_of d k of None \<Rightarrow> d @ [(k, v)] | Some _ \<Rightarrow> d)"

section \<open>OptionManager\<close>

record OptionManager =
  parser :: "optparse_Option list"
  config_options_dict :: "(string \<times> Option) list"
  options :: "Option list"
  om_program_name :: "string option"
  version :: "string option"

definition OptionManager_init :: "string option \<Rightarrow> string option \<Rightarrow> OptionManager" where
  "OptionManager_init prog ver =
     \<lparr> parser = [], config_options_dict = [], options = [],
       om_program_name = prog, version = ver \<rparr>"

definition add_option :: "env \<Rightarrow> OptionManager \<Rightarrow> Option_args \<Rightarrow> error + OptionManager" where
  "add_option E om a =
     (case Option_init a of
        Inl e \<Rightarrow> Inl e
      | Inr opt0 \<Rightarrow>
          (case to_optparse (python3 E) opt0 of
             (handed, opt) \<Rightarrow>
               (case optparse_add_option E (parser om) handed of
                  Inl e \<Rightarrow> Inl e
                | Inr p \<Rightarrow>
                    let om1 = om \<lparr> parser := p, options := options om @ [opt] \<rparr>
                    in if parse_from_config opt then
                         (case getattr_config_name opt of
                            Inl e \<Rightarrow> Inl e
                          | Inr n \<Rightarrow> Inr (om1 \<lparr> config_options_dict :=
                                                dict_set (config_options_dict om) n opt \<rparr>))
                       else Inr om1)))"

section \<open>ConfigFileFinder\<close>

record ConfigFileFinder =
  is_windows :: bool
  xdg_home :: string
  program_config :: string
  program_name :: string
  project_filenames :: "string list"
  global_filenames :: "string list"
  local_directory :: string
  parent :: string
  tail :: string

definition ConfigFileFinder_init ::
    "env \<Rightarrow> string \<Rightarrow> string list option \<Rightarrow> error + ConfigFileFinder" where
  "ConfigFileFinder_init E prog args =
     (let args1 = (case args of None \<Rightarrow> [''.''] | Some [] \<Rightarrow> [''.''] | Some (a # as) \<Rightarrow> a # as)
      in case commonprefix args1 of
           Inl e \<Rightarrow> Inl e
         | Inr pre \<Rightarrow>
             Inr \<lparr> is_windows = (sys_platform E = ''win32''),
                   xdg_home = (case XDG_CONFIG_HOME E of
                                 Some d \<Rightarrow> d
                               | None \<Rightarrow> expanduser E ''~/.config''),
                   program_config = ''.'' @ prog,
                   program_name = prog,
                   project_filenames = [''setup.cfg'', ''tox.ini'', ''.'' @ prog],
                   global_filenames = [''.'' @ prog],
                   local_directory = ''.'',
                   parent = abspath (getcwd E) pre,
                   tail = abspath (getcwd E) pre \<rparr>)"

text \<open>\<^verbatim>\<open>generate_possible_local_config_files\<close>: the \<^verbatim>\<open>while tail:\<close> loop, the
  yielded names collected in a list.\<close>

function generate_loop :: "string \<Rightarrow> string list \<Rightarrow> string \<Rightarrow> string \<Rightarrow> string list" where
  "generate_loop cwd names par tl_part =
     (if tl_part = [] then []
      else map (\<lambda>project_filename. abspath cwd (posix_join par project_filename)) names
           @ (case posix_split par of (p, t) \<Rightarrow> generate_loop cwd names p t))"
  by pat_completeness auto
termination
proof (relation "measure (\<lambda>(cwd, names, par, tl_part). if tl_part = [] then 0 else Suc (length par))",
       goal_cases)
  case 1
  show ?case by simp
next
  case (2 cwd names par tl_part p t)
  have len: "length (takeWhile (\<lambda>x. x \<noteq> CHR ''/'') (rev par))
               + length (dropWhile (\<lambda>x. x \<noteq> CHR ''/'') (rev par)) = length par"
    by (metis length_append length_rev takeWhile_dropWhile_id)
  have t: "t = rev (takeWhile (\<lambda>x. x \<noteq> CHR ''/'') (rev par))"
    using 2 by (simp add: posix_split_def Let_def)
  have "length p \<le> length (dropWhile (\<lambda>x. x \<noteq> CHR ''/'') (rev par))"
    using 2
    by (auto simp: posix_split_def Let_def str_rstrip_def length_dropWhile_le
             split: if_splits)
  then have "t \<noteq> [] \<Longrightarrow> length p < length par"
    using len t by (cases "takeWhile (\<lambda>x. x \<noteq> CHR ''/'') (rev par)") auto
  moreover have ps: "posix_split par = (p, t)"
    using 2 by simp
  ultimately show ?case
    using 2(1) by (simp add: ps)
qed

declare generate_loop.simps [simp del]

definition generate_possible_local_config_files :: "env \<Rightarrow> ConfigFileFinder \<Rightarrow> string list" where
  "generate_possible_local_config_files E F =
     generate_loop (getcwd E) (project_filenames F) (parent F) (tail F)"

text \<open>\<^verbatim>\<open>os.path.exists\<close>\<close>

definition path_exists :: "env \<Rightarrow> string \<Rightarrow> bool" where
  "path_exists E f = (files E f \<noteq> Missing)"

definition local_config_files :: "env \<Rightarrow> ConfigFileFinder \<Rightarrow> string list" where
  "local_config_files E F = filter (path_exists E) (generate_possible_local_config_files E F)"

section \<open>RawConfigParser\<close>

text \<open>
  The parsed configuration is the list of its sections, each the list of its options as
  \<^verbatim>\<open>options(section)\<close> lists them (option names as the parser stores them, the
  defaults of the file included). \<^verbatim>\<open>read\<close> goes through the file names in order: a
  file that cannot be opened is passed over, a file the parser rejects raises, any other
  file adds its options (a later value replaces an earlier one) and its name to the list
  that is returned.
\<close>

definition has_section :: "config \<Rightarrow> string \<Rightarrow> bool" where
  "has_section cfg s = (map_of cfg s \<noteq> None)"

definition cfg_options :: "config \<Rightarrow> string \<Rightarrow> error + string list" where
  "cfg_options cfg s =
     (case map_of cfg s of None \<Rightarrow> Inl NoSectionError | Some kvs \<Rightarrow> Inr (map fst kvs))"

definition cfg_get :: "config \<Rightarrow> string \<Rightarrow> string \<Rightarrow> error + string" where
  "cfg_get cfg s k =
     (case map_of cfg s of
        None \<Rightarrow> Inl NoSectionError
      | Some kvs \<Rightarrow> (case map_of kvs k of None \<Rightarrow> Inl NoOptionError | Some v \<Rightarrow> Inr v))"

definition cfg_getint :: "env \<Rightarrow> config \<Rightarrow> string \<Rightarrow> string \<Rightarrow> error + pyval" where
  "cfg_getint E cfg s k =
     (case cfg_get cfg s k of
        Inl e \<Rightarrow> Inl e
      | Inr v \<Rightarrow> (case str_to_int E v of None \<Rightarrow> Inl ValueError | Some i \<Rightarrow> Inr (PInt i)))"

definition cfg_getboolean :: "env \<Rightarrow> config \<Rightarrow> string \<Rightarrow> string \<Rightarrow> error + pyval" where
  "cfg_getboolean E cfg s k =
     (case cfg_get cfg s k of
        Inl e \<Rightarrow> Inl e
      | Inr v \<Rightarrow> (case str_to_boolean E v of None \<Rightarrow> Inl ValueError | Some b \<Rightarrow> Inr (PBool b)))"

definition cfg_get_str :: "config \<Rightarrow> string \<Rightarrow> string \<Rightarrow> error + pyval" where
  "cfg_get_str cfg s k = (case cfg_get cfg s k of Inl e \<Rightarrow> Inl e | Inr v \<Rightarrow> Inr (PStr v))"

definition add_section :: "config \<Rightarrow> string \<times> ini_section \<Rightarrow> config" where
  "add_section cfg sec =
     dict_set cfg (fst sec)
       (foldl (\<lambda>kvs kv. dict_set kvs (fst kv) (snd kv))
          (case map_of cfg (fst sec) of None \<Rightarrow> [] | Some kvs \<Rightarrow> kvs) (snd sec))"

fun cfg_read :: "env \<Rightarrow> config \<Rightarrow> string list \<Rightarrow> string list \<Rightarrow> error + config \<times> string list" where
  "cfg_read E cfg read_ok [] = Inr (cfg, read_ok)"
| "cfg_read E cfg read_ok (filename # rest) =
     (case files E filename of
        Missing \<Rightarrow> cfg_read E cfg read_ok rest
      | Unreadable \<Rightarrow> cfg_read E cfg read_ok rest
      | Malformed \<Rightarrow> Inl ParsingError
      | Ini sections \<Rightarrow> cfg_read E (foldl add_section cfg sections) (read_ok @ [filename]) rest)"

text \<open>The files \<^verbatim>\<open>read\<close> opens and parses.\<close>

definition opens :: "env \<Rightarrow> string \<Rightarrow> bool" where
  "opens E f = (case files E f of Ini sections \<Rightarrow> True | _ \<Rightarrow> False)"

section \<open>ConfigFileFinder, continued\<close>

text \<open>\<^verbatim>\<open>_read_config(files)\<close>: a fresh parser reads the files. The caller that passes one
  file name passes it here as a list of one, as \<^verbatim>\<open>read\<close> itself does with a string.\<close>

definition read_config :: "env \<Rightarrow> string list \<Rightarrow> error + config \<times> string list" where
  "read_config E fs = cfg_read E [] [] fs"

definition local_configs :: "env \<Rightarrow> ConfigFileFinder \<Rightarrow> error + config" where
  "local_configs E F =
     (case read_config E (local_config_files E F) of
        Inl e \<Rightarrow> Inl e
      | Inr (cfg, found_files) \<Rightarrow> Inr cfg)"

definition user_config_file :: "env \<Rightarrow> ConfigFileFinder \<Rightarrow> string" where
  "user_config_file E F =
     (if is_windows F then expanduser E (CHR ''~'' # CHR 0x5C # program_config F)
      else posix_join (xdg_home F) (program_name F))"

definition user_config :: "env \<Rightarrow> ConfigFileFinder \<Rightarrow> error + config" where
  "user_config E F =
     (case read_config E [user_config_file E F] of
        Inl e \<Rightarrow> Inl e
      | Inr (cfg, found_files) \<Rightarrow> Inr cfg)"

section \<open>MergedConfigParser\<close>

type_synonym dict = "(string \<times> pyval) list"

record MergedConfigParser =
  option_manager :: OptionManager
  mcp_program_name :: string
  args :: "string list option"
  config_finder :: ConfigFileFinder
  config_options :: "(string \<times> Option) list"

text \<open>\<^verbatim>\<open>'.' + program_name\<close> in the finder's constructor is a \<^verbatim>\<open>TypeError\<close> when the
  manager was built without a program name.\<close>

definition MergedConfigParser_init ::
    "env \<Rightarrow> OptionManager \<Rightarrow> string list option \<Rightarrow> error + MergedConfigParser" where
  "MergedConfigParser_init E om as =
     (case om_program_name om of
        None \<Rightarrow> Inl TypeError
      | Some prog \<Rightarrow>
          (case ConfigFileFinder_init E prog as of
             Inl e \<Rightarrow> Inl e
           | Inr F \<Rightarrow>
               Inr \<lparr> option_manager = om, mcp_program_name = prog, args = as,
                     config_finder = F, config_options = config_options_dict om \<rparr>))"

definition GETINT_METHODS :: "string list" where
  "GETINT_METHODS = [''int'', ''count'']"

definition GETBOOL_METHODS :: "string list" where
  "GETBOOL_METHODS = [''store_true'', ''store_false'']"

definition in_methods :: "string option \<Rightarrow> string list \<Rightarrow> bool" where
  "in_methods v ms = (case v of None \<Rightarrow> False | Some s \<Rightarrow> List.member ms s)"

text \<open>The \<^verbatim>\<open>for option_name in ...\<close> loop of \<^verbatim>\<open>_parse_config\<close>. The values are read
  from \<open>cfg\<close>, which the caller binds to the local configuration.\<close>

fun parse_config_loop ::
    "env \<Rightarrow> MergedConfigParser \<Rightarrow> config \<Rightarrow> string list \<Rightarrow> dict \<Rightarrow> error + dict" where
  "parse_config_loop E M cfg [] config_dict = Inr config_dict"
| "parse_config_loop E M cfg (option_name # rest) config_dict =
     (case map_of (config_options M) option_name of
        None \<Rightarrow> parse_config_loop E M cfg rest config_dict
      | Some opt \<Rightarrow>
          (case (if in_methods (type_name (option_kwargs opt)) GETINT_METHODS
                   then cfg_getint E cfg (mcp_program_name M) option_name
                 else if in_methods (action (option_kwargs opt)) GETBOOL_METHODS
                   then cfg_getboolean E cfg (mcp_program_name M) option_name
                 else cfg_get_str cfg (mcp_program_name M) option_name) of
             Inl e \<Rightarrow> Inl e
           | Inr v \<Rightarrow>
               (case (if comma_separated_list opt then parse_comma_separated_list E v
                      else Inr v) of
                  Inl e \<Rightarrow> Inl e
                | Inr final_value \<Rightarrow>
                    parse_config_loop E M cfg rest (dict_set config_dict option_name final_value))))"

text \<open>\<^verbatim>\<open>_parse_config(config_parser)\<close>. It loads the local configuration again and tests
  that one for the section; the function body ends after the loop with no
  \<^verbatim>\<open>return\<close>, so the value is \<^verbatim>\<open>None\<close>.\<close>

definition parse_config :: "env \<Rightarrow> MergedConfigParser \<Rightarrow> config \<Rightarrow> error + dict option" where
  "parse_config E M config_parser =
     (case local_configs E (config_finder M) of
        Inl e \<Rightarrow> Inl e
      | Inr cfg \<Rightarrow>
          if \<not> has_section cfg (mcp_program_name M) then Inr (Some [])
          else
            (case cfg_options config_parser (mcp_program_name M) of
               Inl e \<Rightarrow> Inl e
             | Inr names \<Rightarrow>
                 (case parse_config_loop E M cfg names [] of
                    Inl e \<Rightarrow> Inl e
                  | Inr config_dict \<Rightarrow> Inr None)))"

definition is_configured_by :: "MergedConfigParser \<Rightarrow> config \<Rightarrow> bool" where
  "is_configured_by M cfg = has_section cfg (mcp_program_name M)"

definition parse_local_config :: "env \<Rightarrow> MergedConfigParser \<Rightarrow> error + dict option" where
  "parse_local_config E M =
     (case local_configs E (config_finder M) of
        Inl e \<Rightarrow> Inl e
      | Inr cfg \<Rightarrow>
          if \<not> is_configured_by M cfg then Inr None
          else parse_config E M cfg)"

definition parse_user_config :: "env \<Rightarrow> MergedConfigParser \<Rightarrow> error + dict option" where
  "parse_user_config E M =
     (case user_config E (config_finder M) of
        Inl e \<Rightarrow> Inl e
      | Inr cfg \<Rightarrow>
          if \<not> is_configured_by M cfg then Inr None
          else parse_config E M cfg)"

text \<open>The loop of \<^verbatim>\<open>parse\<close>: \<^verbatim>\<open>config.setdefault(option, value)\<close> for each item of
  the user's mapping; on \<^verbatim>\<open>None\<close> the method does not exist.\<close>

fun setdefault_loop :: "dict option \<Rightarrow> dict \<Rightarrow> error + dict option" where
  "setdefault_loop cfg [] = Inr cfg"
| "setdefault_loop cfg (item # rest) =
     (case cfg of
        None \<Rightarrow> Inl AttributeError
      | Some d \<Rightarrow> setdefault_loop (Some (dict_setdefault d (fst item) (snd item))) rest)"

text \<open>\<^verbatim>\<open>parse()\<close>: both parses run first; \<^verbatim>\<open>user_config.items()\<close> on \<^verbatim>\<open>None\<close> is an
  \<^verbatim>\<open>AttributeError\<close>.\<close>

definition parse :: "env \<Rightarrow> MergedConfigParser \<Rightarrow> error + dict option" where
  "parse E M =
     (case parse_user_config E M of
        Inl e \<Rightarrow> Inl e
      | Inr user_cfg \<Rightarrow>
          (case parse_local_config E M of
             Inl e \<Rightarrow> Inl e
           | Inr cfg \<Rightarrow>
               (case user_cfg of
                  None \<Rightarrow> Inl AttributeError
                | Some items \<Rightarrow> setdefault_loop cfg items)))"

section \<open>The specification's own wording, for comparison\<close>

text \<open>The directories from a normalised absolute path up to the root, by components:
  the root is the leading slashes, a directory is the root followed by a prefix of the
  components.\<close>

definition path_root :: "string \<Rightarrow> string" where
  "path_root p = takeWhile (\<lambda>x. x = CHR ''/'') p"

definition path_components :: "string \<Rightarrow> string list" where
  "path_components p = filter (\<lambda>w. w \<noteq> []) (str_split (CHR ''/'') p)"

text \<open>A root is one slash, or two (POSIX keeps exactly two leading slashes apart).\<close>

definition is_root :: "string \<Rightarrow> bool" where
  "is_root r = (r = ''/'' \<or> r = ''//'')"

definition render :: "string \<Rightarrow> string list \<Rightarrow> string" where
  "render root cs = root @ str_join ''/'' cs"

definition ancestors :: "string \<Rightarrow> string list" where
  "ancestors p =
     map (\<lambda>k. render (path_root p) (take k (path_components p)))
       (rev [0 ..< Suc (length (path_components p))])"

text \<open>A file name joined with a directory: one slash between them, none added after
  the root.\<close>

definition in_directory :: "string \<Rightarrow> string \<Rightarrow> string" where
  "in_directory d n = (if d \<noteq> [] \<and> last d = CHR ''/'' then d @ n else d @ ''/'' @ n)"

text \<open>A name that is one path component and neither \<^verbatim>\<open>.\<close> nor \<^verbatim>\<open>..\<close>.\<close>

definition plain_name :: "string \<Rightarrow> bool" where
  "plain_name n = (n \<noteq> [] \<and> CHR ''/'' \<notin> set n \<and> n \<noteq> ''.'' \<and> n \<noteq> ''..'')"

text \<open>The longest shared directory prefix of a list of absolute paths: the longest
  common prefix of their component lists, under the root.\<close>

fun common_components :: "string list \<Rightarrow> string list \<Rightarrow> string list" where
  "common_components (x # xs) (y # ys) = (if x = y then x # common_components xs ys else [])"
| "common_components _ _ = []"

definition spec_common_directory :: "string list \<Rightarrow> string" where
  "spec_common_directory ps =
     (case ps of
        [] \<Rightarrow> []
      | p # rest \<Rightarrow>
          render ''/'' (foldl common_components (path_components p) (map path_components rest)))"

section \<open>A concrete environment\<close>

text \<open>Conversions and collaborators for the worked examples: decimal digits for
  \<^verbatim>\<open>int\<close>, the lower-case words of \<^verbatim>\<open>getboolean\<close>, an \<^verbatim>\<open>optparse\<close> parser that
  accepts every option.\<close>

definition digit_val :: "char \<Rightarrow> int option" where
  "digit_val c =
     (if CHR ''0'' \<le> c \<and> c \<le> CHR ''9'' then Some (int (of_char c) - 48) else None)"

fun digits_to_int :: "int \<Rightarrow> string \<Rightarrow> int option" where
  "digits_to_int acc [] = Some acc"
| "digits_to_int acc (c # cs) =
     (case digit_val c of None \<Rightarrow> None | Some d \<Rightarrow> digits_to_int (10 * acc + d) cs)"

definition demo_int :: "string \<Rightarrow> int option" where
  "demo_int s = (if s = [] then None else digits_to_int 0 s)"

definition demo_boolean :: "string \<Rightarrow> bool option" where
  "demo_boolean s =
     (if List.member [''1'', ''yes'', ''true'', ''on''] s then Some True
      else if List.member [''0'', ''no'', ''false'', ''off''] s then Some False
      else None)"

text \<open>Modelled from the spec: \<^verbatim>\<open>utils.parse_comma_separated_list\<close> is not among the
  sources. The specification has it split the string on commas and trim the white space
  around each element; it does not say what a value that is not a string gives, taken
  here as the error of a missing \<^verbatim>\<open>split\<close> method.\<close>

definition is_space :: "char \<Rightarrow> bool" where
  "is_space c = List.member [CHR '' '', CHR 0x09, CHR 0x0A, CHR 0x0B, CHR 0x0C, CHR 0x0D] c"

definition trim :: "string \<Rightarrow> string" where
  "trim s = rev (dropWhile is_space (rev (dropWhile is_space s)))"

definition spec_parse_comma_separated_list :: "pyval \<Rightarrow> error + pyval" where
  "spec_parse_comma_separated_list v =
     (case v of
        PStr s \<Rightarrow> Inr (PList (map trim (str_split (CHR '','') s)))
      | PList ws \<Rightarrow> Inr (PList (map trim ws))
      | PInt i \<Rightarrow> Inl AttributeError
      | PBool b \<Rightarrow> Inl AttributeError)"

definition demo_env :: "(string \<Rightarrow> fs_entry) \<Rightarrow> env" where
  "demo_env fs =
     \<lparr> python3 = True,
       sys_platform = ''linux'',
       XDG_CONFIG_HOME = Some ''/x'',
       expanduser = (\<lambda>p. p),
       getcwd = ''/'',
       files = fs,
       str_to_int = demo_int,
       str_to_boolean = demo_boolean,
       parse_comma_separated_list = spec_parse_comma_separated_list,
       optparse_add_option = (\<lambda>p opt. Inr (p @ [opt])) \<rparr>"

text \<open>The arguments of three registrations; a manager for the program \<^verbatim>\<open>flake8\<close> with
  the options \<^verbatim>\<open>--ignore\<close> and \<^verbatim>\<open>--max-line-length\<close> registered for configuration
  files; and the parser built on it for the input path \<^verbatim>\<open>/\<close>.\<close>

definition my_option_args :: Option_args where
  "my_option_args = no_args \<lparr> arg_long_option_name := Some ''--my-option'',
                              arg_parse_from_config := True \<rparr>"

definition ignore_args :: Option_args where
  "ignore_args = no_args \<lparr> arg_long_option_name := Some ''--ignore'',
                           arg_parse_from_config := True \<rparr>"

definition max_line_length_args :: Option_args where
  "max_line_length_args = no_args \<lparr> arg_long_option_name := Some ''--max-line-length'',
                                    arg_type := Some ''int'',
                                    arg_parse_from_config := True \<rparr>"

definition demo_manager :: "env \<Rightarrow> error + OptionManager" where
  "demo_manager E =
     (case add_option E (OptionManager_init (Some ''flake8'') None) ignore_args of
        Inl e \<Rightarrow> Inl e
      | Inr om \<Rightarrow> add_option E om max_line_length_args)"

definition demo_parser :: "env \<Rightarrow> error + MergedConfigParser" where
  "demo_parser E =
     (case demo_manager E of
        Inl e \<Rightarrow> Inl e
      | Inr om \<Rightarrow> MergedConfigParser_init E om (Some [''/'']))"

text \<open>File systems: nothing at all; a local and a user file that both set \<^verbatim>\<open>ignore\<close>;
  a local file only; a local file only, whose value for the integer option is no integer;
  a file the parser rejects.\<close>

definition fs_empty :: "string \<Rightarrow> fs_entry" where
  "fs_empty f = Missing"

definition fs_both :: "string \<Rightarrow> fs_entry" where
  "fs_both f =
     (if f = ''/tox.ini'' then Ini [(''flake8'', [(''ignore'', ''E1'')])]
      else if f = ''/x/flake8'' then Ini [(''flake8'', [(''ignore'', ''E2'')])]
      else Missing)"

definition fs_local_only :: "string \<Rightarrow> fs_entry" where
  "fs_local_only f =
     (if f = ''/tox.ini'' then Ini [(''flake8'', [(''ignore'', ''E1'')])] else Missing)"

definition fs_local_not_int :: "string \<Rightarrow> fs_entry" where
  "fs_local_not_int f =
     (if f = ''/tox.ini'' then Ini [(''flake8'', [(''max_line_length'', ''abc'')])]
      else Missing)"

definition fs_malformed :: "string \<Rightarrow> fs_entry" where
  "fs_malformed f = (if f = ''/bad.cfg'' then Malformed else Missing)"

text \<open>The whole run on a file system: the manager is built, the parser is built on it,
  and a function of the parser is called.\<close>

definition demo_run ::
    "(string \<Rightarrow> fs_entry) \<Rightarrow> (env \<Rightarrow> MergedConfigParser \<Rightarrow> error + 'a) \<Rightarrow> error + 'a" where
  "demo_run fs f =
     (case demo_parser (demo_env fs) of Inl e \<Rightarrow> Inl e | Inr M \<Rightarrow> f (demo_env fs) M)"

text \<open>The finder that the constructor builds for the input paths \<^verbatim>\<open>/a/b\<close> and
  \<^verbatim>\<open>/a/c\<close>, and the parser that \<open>demo_parser\<close> returns.\<close>

definition demo_finder :: ConfigFileFinder where
  "demo_finder =
     \<lparr> is_windows = False, xdg_home = ''/x'', program_config = ''.flake8'',
       program_name = ''flake8'',
       project_filenames = [''setup.cfg'', ''tox.ini'', ''.flake8''],
       global_filenames = [''.flake8''], local_directory = ''.'',
       parent = ''/a'', tail = ''/a'' \<rparr>"

definition demo_mcp :: "(string \<Rightarrow> fs_entry) \<Rightarrow> MergedConfigParser" where
  "demo_mcp fs = projr (demo_parser (demo_env fs))"

section \<open>Properties of Option\<close>

lemma str_rstrip_id: "s = [] \<or> last s \<noteq> c \<Longrightarrow> str_rstrip c s = s"
  by (cases s rule: rev_cases) (auto simp: str_rstrip_def)

lemma str_lstrip_last:
  "str_lstrip c s \<noteq> [] \<Longrightarrow> last (str_lstrip c s) = last s"
  unfolding str_lstrip_def
  by (induction s) (auto split: if_splits)

lemma str_strip_no_trailing:
  "n = [] \<or> last n \<noteq> c \<Longrightarrow> str_strip c n = str_lstrip c n"
  unfolding str_strip_def
  by (metis str_rstrip_id str_lstrip_last str_lstrip_def dropWhile.simps(1))

text \<open>
  C5. Constructing an Option with \<^verbatim>\<open>parse_from_config\<close> true and no long option name
  (\<^verbatim>\<open>None\<close>, or the empty string, which Python also takes as false) raises the
  construction error, a \<^verbatim>\<open>ValueError\<close>; with a long option name present the
  construction succeeds, whatever the other arguments are.
\<close>

theorem Option_init_long_name_required:
  "(arg_parse_from_config a \<and> \<not> truthy (arg_long_option_name a)
      \<longrightarrow> Option_init a = Inl ValueError)
   \<and> (truthy (arg_long_option_name a) \<longrightarrow> (\<exists>opt. Option_init a = Inr opt))"
  by (auto simp: Option_init_def truthy_def Let_def split: option.splits)

theorem Option_init_long_name_required_witness:
  "Option_init (no_args \<lparr> arg_short_option_name := Some ''-x'', arg_parse_from_config := True \<rparr>)
     = Inl ValueError
   \<and> (\<exists>opt. Option_init (no_args \<lparr> arg_long_option_name := Some ''--xtra-long-option'',
                                      arg_parse_from_config := True \<rparr>) = Inr opt)"
  using Option_init_long_name_required
          [of "no_args \<lparr> arg_short_option_name := Some ''-x'', arg_parse_from_config := True \<rparr>"]
        Option_init_long_name_required
          [of "no_args \<lparr> arg_long_option_name := Some ''--xtra-long-option'',
                         arg_parse_from_config := True \<rparr>"]
  by (simp add: no_args_def truthy_def)

lemma map_of_dict_set:
  "map_of (dict_set d k v) k' = (if k' = k then Some v else map_of d k')"
  by (induction d) auto

lemma Option_init_config_eligible:
  assumes "Option_init a = Inr opt" and "arg_parse_from_config a"
  shows "\<exists>n. arg_long_option_name a = Some n \<and> n \<noteq> []
           \<and> parse_from_config opt
           \<and> config_name opt
               = Some (str_replace (CHR ''-'') (CHR ''_'') (str_strip (CHR ''-'') n))"
  using assms
  by (auto simp: Option_init_def Let_def split: option.splits if_splits)

lemma to_optparse_config_name:
  "config_name (snd (to_optparse py3 opt)) = config_name opt
   \<and> parse_from_config (snd (to_optparse py3 opt)) = parse_from_config opt"
  by (simp add: to_optparse_def)

lemma add_option_registers:
  assumes "add_option E om a = Inr om'" and "Option_init a = Inr opt"
    and "parse_from_config opt" and "config_name opt = Some k"
  shows "config_name (last (options om')) = Some k
         \<and> map_option config_name (map_of (config_options_dict om') k) = Some (Some k)"
  using assms
  by (auto simp: add_option_def Let_def getattr_config_name_def map_of_dict_set to_optparse_def
           split: sum.splits prod.splits if_splits)

text \<open>
  C6, counterexample. The long option name \<^verbatim>\<open>--foo-\<close> is config-eligible;
  \<^verbatim>\<open>strip('-')\<close> removes the trailing dash as well as the leading ones, so the derived
  key is \<^verbatim>\<open>foo\<close>, while stripping the leading dashes only leaves \<^verbatim>\<open>foo-\<close>, and
  replacing the dashes that are left gives \<^verbatim>\<open>foo_\<close>.
\<close>

theorem config_name_trailing_dash_counterexample:
  "map_sum id config_name
     (Option_init (no_args \<lparr> arg_long_option_name := Some ''--foo-'',
                             arg_parse_from_config := True \<rparr>)) = Inr (Some ''foo'')
   \<and> map_sum id config_name
     (Option_init (no_args \<lparr> arg_long_option_name := Some ''--foo-'',
                             arg_parse_from_config := True \<rparr>))
       \<noteq> Inr (Some (spec_config_key ''--foo-''))
   \<and> str_lstrip (CHR ''-'') ''--foo-'' = ''foo-''
   \<and> spec_config_key ''--foo-'' = ''foo_''"
  by (simp add: Option_init_def no_args_def spec_config_key_def str_strip_def str_lstrip_def
        str_rstrip_def str_replace_def)

text \<open>
  C6, as amended. For every config-eligible Option the derived key is the long option name
  with all leading and all trailing dashes stripped and every dash that is left replaced
  by an underscore; for a name that does not end in a dash this is the name with exactly
  its leading dashes stripped. The key is derived once, by the constructor, and never
  changes: \<^verbatim>\<open>to_optparse\<close> leaves it as it is, and the Option that a registration
  stores, in the option list and in the config-key map, carries that same key.
\<close>

theorem config_name_derivation:
  "Option_init a = Inr opt \<and> arg_parse_from_config a \<longrightarrow>
     (\<exists>n. arg_long_option_name a = Some n
        \<and> config_name opt
            = Some (str_replace (CHR ''-'') (CHR ''_'') (str_strip (CHR ''-'') n))
        \<and> (last n \<noteq> CHR ''-'' \<longrightarrow> config_name opt = Some (spec_config_key n))
        \<and> (\<forall>py3. config_name (snd (to_optparse py3 opt)) = config_name opt)
        \<and> (\<forall>E om om'. add_option E om a = Inr om' \<longrightarrow>
              config_name (last (options om'))
                = Some (str_replace (CHR ''-'') (CHR ''_'') (str_strip (CHR ''-'') n))
              \<and> map_option config_name
                    (map_of (config_options_dict om')
                       (str_replace (CHR ''-'') (CHR ''_'') (str_strip (CHR ''-'') n)))
                  = Some (Some (str_replace (CHR ''-'') (CHR ''_'') (str_strip (CHR ''-'') n)))))"
proof
  assume h: "Option_init a = Inr opt \<and> arg_parse_from_config a"
  then obtain n where n: "arg_long_option_name a = Some n" "n \<noteq> []" "parse_from_config opt"
      "config_name opt = Some (str_replace (CHR ''-'') (CHR ''_'') (str_strip (CHR ''-'') n))"
    using Option_init_config_eligible by blast
  define k where "k = str_replace (CHR ''-'') (CHR ''_'') (str_strip (CHR ''-'') n)"
  have c: "config_name opt = Some k"
    using n(4) by (simp add: k_def)
  have s: "last n \<noteq> CHR ''-'' \<longrightarrow> config_name opt = Some (spec_config_key n)"
    using n(4) by (simp add: spec_config_key_def str_strip_no_trailing)
  have t: "\<forall>py3. config_name (snd (to_optparse py3 opt)) = config_name opt"
    by (simp add: to_optparse_config_name)
  have r: "\<forall>E om om'. add_option E om a = Inr om' \<longrightarrow>
              config_name (last (options om')) = Some k
              \<and> map_option config_name (map_of (config_options_dict om') k) = Some (Some k)"
    using add_option_registers h n(3) c by blast
  show "\<exists>n. arg_long_option_name a = Some n
        \<and> config_name opt
            = Some (str_replace (CHR ''-'') (CHR ''_'') (str_strip (CHR ''-'') n))
        \<and> (last n \<noteq> CHR ''-'' \<longrightarrow> config_name opt = Some (spec_config_key n))
        \<and> (\<forall>py3. config_name (snd (to_optparse py3 opt)) = config_name opt)
        \<and> (\<forall>E om om'. add_option E om a = Inr om' \<longrightarrow>
              config_name (last (options om'))
                = Some (str_replace (CHR ''-'') (CHR ''_'') (str_strip (CHR ''-'') n))
              \<and> map_option config_name
                    (map_of (config_options_dict om')
                       (str_replace (CHR ''-'') (CHR ''_'') (str_strip (CHR ''-'') n)))
                  = Some (Some (str_replace (CHR ''-'') (CHR ''_'') (str_strip (CHR ''-'') n))))"
    using n(1) c s t r unfolding k_def by blast
qed

lemma Option_init_my_option:
  "Option_init my_option_args =
     Inr \<lparr> short_option_name = None, long_option_name = Some ''--my-option'',
           option_args = [''--my-option''],
           option_kwargs = \<lparr> action = None, default_value = None, type_name = None,
             dest = None, callback = None, callback_args = None, callback_kwargs = None,
             help_text = None, metavar = None \<rparr>,
           parse_from_config = True, comma_separated_list = False,
           config_name = Some ''my_option'' \<rparr>"
  by (simp add: Option_init_def my_option_args_def no_args_def filter_None_def
        str_strip_def str_lstrip_def str_rstrip_def str_replace_def)

text \<open>
  C6, witness: \<^verbatim>\<open>--my-option\<close> derives \<^verbatim>\<open>my_option\<close>, and the Option the manager
  stores under that key carries it, while its positional arguments are used up
  (Python 3).
\<close>

theorem config_name_derivation_witness:
  "map_sum id config_name (Option_init my_option_args) = Inr (Some ''my_option'')
   \<and> spec_config_key ''--my-option'' = ''my_option''
   \<and> map_sum id (\<lambda>om. map_option config_name (map_of (config_options_dict om) ''my_option''))
        (add_option (demo_env fs_empty) (OptionManager_init (Some ''flake8'') None) my_option_args)
       = Inr (Some (Some ''my_option''))
   \<and> map_sum id (\<lambda>om. map option_args (options om))
        (add_option (demo_env fs_empty) (OptionManager_init (Some ''flake8'') None) my_option_args)
       = Inr [[]]"
  using config_name_derivation [of my_option_args
          "\<lparr> short_option_name = None, long_option_name = Some ''--my-option'',
           option_args = [''--my-option''],
           option_kwargs = \<lparr> action = None, default_value = None, type_name = None,
             dest = None, callback = None, callback_args = None, callback_kwargs = None,
             help_text = None, metavar = None \<rparr>,
           parse_from_config = True, comma_separated_list = False,
           config_name = Some ''my_option'' \<rparr>"]
  by (simp add: Option_init_my_option add_option_def demo_env_def OptionManager_init_def
        to_optparse_def getattr_config_name_def spec_config_key_def str_lstrip_def
        str_replace_def)

text \<open>
  C9. An Option constructed with \<^verbatim>\<open>parse_from_config\<close> false is always constructed, has
  no \<^verbatim>\<open>config_name\<close> attribute, and reading the attribute raises \<^verbatim>\<open>AttributeError\<close>;
  a constructed Option has the attribute exactly when it is config-eligible.
\<close>

theorem config_name_only_when_parse_from_config:
  "(\<not> arg_parse_from_config a \<longrightarrow>
      (\<exists>opt. Option_init a = Inr opt \<and> config_name opt = None
         \<and> getattr_config_name opt = Inl AttributeError))
   \<and> (\<forall>opt. Option_init a = Inr opt \<longrightarrow>
         (config_name opt \<noteq> None) = arg_parse_from_config a)"
  by (auto simp: Option_init_def Let_def getattr_config_name_def split: option.splits if_splits)

text \<open>
  C9, witness: the option \<^verbatim>\<open>-x\<close> with every other argument left out.
\<close>

theorem config_name_only_when_parse_from_config_witness:
  "(\<exists>opt. Option_init (no_args \<lparr> arg_short_option_name := Some ''-x'' \<rparr>) = Inr opt
       \<and> config_name opt = None \<and> getattr_config_name opt = Inl AttributeError)"
  using config_name_only_when_parse_from_config [of "no_args \<lparr> arg_short_option_name := Some ''-x'' \<rparr>"]
  by (simp add: no_args_def)

section \<open>Properties of the loader\<close>

lemma opens_iff: "opens E f = (\<exists>secs. files E f = Ini secs)"
  by (simp add: opens_def split: fs_entry.splits)

lemma cfg_read_no_malformed:
  "\<forall>f\<in>set fs. files E f \<noteq> Malformed \<Longrightarrow>
     \<exists>cfg'. cfg_read E cfg ok fs = Inr (cfg', ok @ filter (opens E) fs)"
proof (induction fs arbitrary: cfg ok)
  case Nil
  then show ?case by simp
next
  case (Cons a fs)
  then have ih: "\<And>cfg ok. \<exists>cfg'. cfg_read E cfg ok fs = Inr (cfg', ok @ filter (opens E) fs)"
    by simp
  show ?case
  proof (cases "opens E a")
    case True
    then obtain secs where "files E a = Ini secs"
      by (auto simp: opens_iff)
    then show ?thesis
      using True ih [of "foldl add_section cfg secs" "ok @ [a]"] by simp
  next
    case False
    then have "cfg_read E cfg ok (a # fs) = cfg_read E cfg ok fs"
      using Cons.prems by (cases "files E a") (auto simp: opens_iff)
    then show ?thesis
      using False ih [of cfg ok] by simp
  qed
qed

lemma cfg_read_malformed:
  "\<exists>f\<in>set fs. files E f = Malformed \<Longrightarrow> cfg_read E cfg ok fs = Inl ParsingError"
  by (induction fs arbitrary: cfg ok) (auto split: fs_entry.splits)

lemma cfg_read_nothing_opens:
  "\<forall>f\<in>set fs. files E f = Missing \<or> files E f = Unreadable \<Longrightarrow>
     cfg_read E cfg ok fs = Inr (cfg, ok)"
  by (induction fs arbitrary: cfg ok) auto

lemma cfg_read_only_opened:
  "\<forall>f\<in>set fs. files E f \<noteq> Malformed \<Longrightarrow>
     cfg_read E cfg ok fs = cfg_read E cfg ok (filter (opens E) fs)"
proof (induction fs arbitrary: cfg ok)
  case Nil
  then show ?case by simp
next
  case (Cons a fs)
  show ?case
  proof (cases "opens E a")
    case True
    then obtain secs where "files E a = Ini secs"
      by (auto simp: opens_iff)
    then show ?thesis
      using True Cons by simp
  next
    case False
    then have "cfg_read E cfg ok (a # fs) = cfg_read E cfg ok fs"
      using Cons.prems by (cases "files E a") (auto simp: opens_iff)
    then show ?thesis
      using False Cons by simp
  qed
qed

text \<open>
  C4, counterexample. A present file that the parser rejects makes the read raise: nothing
  in \<^verbatim>\<open>_read_config\<close> catches the parser's error.
\<close>

theorem read_config_malformed_counterexample:
  "read_config (demo_env fs_malformed) [''/bad.cfg''] = Inl ParsingError"
  by (simp add: read_config_def demo_env_def fs_malformed_def)

text \<open>
  C4, as amended. When no listed file is rejected by the parser, the read returns a parsed
  configuration together with exactly the listed paths that could be opened, in order,
  and the result is the same as reading those paths alone (a missing or unopenable path
  contributes nothing); when every path is missing or unopenable the result is the empty
  configuration and the empty list. When a listed file is malformed the parser's error
  is raised.
\<close>

theorem read_config_skips_unopenable:
  "((\<forall>f\<in>set fs. files E f \<noteq> Malformed) \<longrightarrow>
      (\<exists>cfg. read_config E fs = Inr (cfg, filter (opens E) fs))
      \<and> read_config E fs = read_config E (filter (opens E) fs))
   \<and> ((\<forall>f\<in>set fs. files E f = Missing \<or> files E f = Unreadable) \<longrightarrow>
        read_config E fs = Inr ([], []))
   \<and> ((\<exists>f\<in>set fs. files E f = Malformed) \<longrightarrow> read_config E fs = Inl ParsingError)"
proof (intro conjI impI)
  assume ok: "\<forall>f\<in>set fs. files E f \<noteq> Malformed"
  show "\<exists>cfg. read_config E fs = Inr (cfg, filter (opens E) fs)"
    using cfg_read_no_malformed [OF ok, of "[]" "[]"] by (simp add: read_config_def)
  show "read_config E fs = read_config E (filter (opens E) fs)"
    using cfg_read_only_opened [OF ok] by (simp add: read_config_def)
next
  assume "\<forall>f\<in>set fs. files E f = Missing \<or> files E f = Unreadable"
  then show "read_config E fs = Inr ([], [])"
    unfolding read_config_def by (rule cfg_read_nothing_opens)
next
  assume "\<exists>f\<in>set fs. files E f = Malformed"
  then show "read_config E fs = Inl ParsingError"
    unfolding read_config_def by (rule cfg_read_malformed)
qed

text \<open>
  C4, witness: a missing path beside a good file, a missing path alone, and a missing
  path beside a malformed file.
\<close>

theorem read_config_skips_unopenable_witness:
  "read_config (demo_env fs_local_only) [''/nonexistent'', ''/tox.ini'']
     = Inr ([(''flake8'', [(''ignore'', ''E1'')])], [''/tox.ini''])
   \<and> read_config (demo_env fs_local_only) [''/nonexistent''] = Inr ([], [])
   \<and> read_config (demo_env fs_malformed) [''/nonexistent'', ''/bad.cfg''] = Inl ParsingError"
  using read_config_skips_unopenable [of "[''/nonexistent'', ''/tox.ini'']" "demo_env fs_local_only"]
    read_config_skips_unopenable [of "[''/nonexistent'']" "demo_env fs_local_only"]
    read_config_skips_unopenable [of "[''/nonexistent'', ''/bad.cfg'']" "demo_env fs_malformed"]
  by (simp add: read_config_def demo_env_def fs_local_only_def fs_malformed_def opens_def
        add_section_def)

section \<open>Properties of the merge\<close>

lemma parse_config_result:
  "parse_config E M c = Inr r \<Longrightarrow> r = None \<or> r = Some []"
  by (auto simp: parse_config_def split: sum.splits if_splits)

lemma parse_local_config_result:
  "parse_local_config E M = Inr r \<Longrightarrow> r = None"
  by (auto simp: parse_local_config_def parse_config_def is_configured_by_def
           split: sum.splits if_splits)

lemma parse_user_config_result:
  "parse_user_config E M = Inr r \<Longrightarrow> r = None \<or> r = Some []"
  by (auto simp: parse_user_config_def dest: parse_config_result split: sum.splits if_splits)

lemma parse_never_returns_mapping: "parse E M \<noteq> Inr (Some d)"
proof
  assume h: "parse E M = Inr (Some d)"
  then obtain u l where u: "parse_user_config E M = Inr u" and l: "parse_local_config E M = Inr l"
    by (auto simp: parse_def split: sum.splits)
  have "l = None" using l by (rule parse_local_config_result)
  moreover have "u = None \<or> u = Some []" using u by (rule parse_user_config_result)
  ultimately show False
    using h u l by (auto simp: parse_def)
qed

lemma setdefault_loop_merges:
  "\<exists>d. setdefault_loop (Some loc) usr = Inr (Some d)
       \<and> (\<forall>k. map_of d k = (case map_of loc k of Some v \<Rightarrow> Some v | None \<Rightarrow> map_of usr k))"
proof (induction usr arbitrary: loc)
  case Nil
  then show ?case by (auto split: option.splits)
next
  case (Cons item usr)
  obtain d where d: "setdefault_loop (Some (dict_setdefault loc (fst item) (snd item))) usr = Inr (Some d)"
    and m: "\<forall>k. map_of d k = (case map_of (dict_setdefault loc (fst item) (snd item)) k of
                 Some v \<Rightarrow> Some v | None \<Rightarrow> map_of usr k)"
    using Cons [of "dict_setdefault loc (fst item) (snd item)"] by blast
  have "\<forall>k. map_of d k = (case map_of loc k of Some v \<Rightarrow> Some v | None \<Rightarrow> map_of (item # usr) k)"
    using m by (cases item) (auto simp: dict_setdefault_def split: option.splits)
  then show ?case using d by simp
qed

text \<open>
  C10, as amended. When the user configuration loads and has no section named after the
  program, \<^verbatim>\<open>parse_user_config\<close> returns \<^verbatim>\<open>None\<close> and \<^verbatim>\<open>parse\<close> fails: with the error
  of the local parse when that raises, and otherwise with the \<^verbatim>\<open>AttributeError\<close> of
  \<^verbatim>\<open>None.items()\<close>; the latter in particular when the local configuration has a
  section whose registered options all convert.
\<close>

theorem parse_fails_without_user_section:
  "user_config E (config_finder M) = Inr ucfg \<and> \<not> has_section ucfg (mcp_program_name M) \<longrightarrow>
     parse_user_config E M = Inr None
     \<and> (\<exists>e. parse E M = Inl e)
     \<and> (\<forall>e. parse_local_config E M = Inl e \<longrightarrow> parse E M = Inl e)
     \<and> (\<forall>r. parse_local_config E M = Inr r \<longrightarrow> parse E M = Inl AttributeError)
     \<and> (\<forall>lcfg names d. local_configs E (config_finder M) = Inr lcfg
           \<and> cfg_options lcfg (mcp_program_name M) = Inr names
           \<and> parse_config_loop E M lcfg names [] = Inr d
          \<longrightarrow> parse E M = Inl AttributeError)"
proof
  assume h: "user_config E (config_finder M) = Inr ucfg \<and> \<not> has_section ucfg (mcp_program_name M)"
  then have u: "parse_user_config E M = Inr None"
    by (simp add: parse_user_config_def is_configured_by_def)
  have a: "\<forall>r. parse_local_config E M = Inr r \<longrightarrow> parse E M = Inl AttributeError"
    using u by (simp add: parse_def)
  have f: "\<forall>e. parse_local_config E M = Inl e \<longrightarrow> parse E M = Inl e"
    using u by (simp add: parse_def)
  have b: "\<exists>e. parse E M = Inl e"
    using u by (cases "parse_local_config E M") (simp_all add: parse_def)
  have c: "\<forall>lcfg names d. local_configs E (config_finder M) = Inr lcfg
           \<and> cfg_options lcfg (mcp_program_name M) = Inr names
           \<and> parse_config_loop E M lcfg names [] = Inr d
          \<longrightarrow> parse E M = Inl AttributeError"
  proof (intro allI impI)
    fix lcfg names d
    assume l: "local_configs E (config_finder M) = Inr lcfg
           \<and> cfg_options lcfg (mcp_program_name M) = Inr names
           \<and> parse_config_loop E M lcfg names [] = Inr d"
    then have "parse_local_config E M = Inr None"
      by (simp add: parse_local_config_def parse_config_def is_configured_by_def)
    then show "parse E M = Inl AttributeError"
      using a by blast
  qed
  show "parse_user_config E M = Inr None
     \<and> (\<exists>e. parse E M = Inl e)
     \<and> (\<forall>e. parse_local_config E M = Inl e \<longrightarrow> parse E M = Inl e)
     \<and> (\<forall>r. parse_local_config E M = Inr r \<longrightarrow> parse E M = Inl AttributeError)
     \<and> (\<forall>lcfg names d. local_configs E (config_finder M) = Inr lcfg
           \<and> cfg_options lcfg (mcp_program_name M) = Inr names
           \<and> parse_config_loop E M lcfg names [] = Inr d
          \<longrightarrow> parse E M = Inl AttributeError)"
    using u a f b c by blast
qed

lemma demo_parser_built: "demo_parser (demo_env fs) = Inr (demo_mcp fs)"
  unfolding demo_mcp_def by code_simp

text \<open>
  C10, counterexample. No user file, and a local \<^verbatim>\<open>tox.ini\<close> whose \<^verbatim>\<open>flake8\<close> section
  gives the integer option \<^verbatim>\<open>max_line_length\<close> the value \<^verbatim>\<open>abc\<close>: the user
  configuration has no section and \<^verbatim>\<open>parse_user_config\<close> returns \<^verbatim>\<open>None\<close>, but
  \<^verbatim>\<open>parse\<close> fails with the \<^verbatim>\<open>ValueError\<close> of the local parse, which runs before the
  loop over the user's result, and not by iterating over \<^verbatim>\<open>None\<close>.
\<close>

theorem parse_local_error_first_counterexample:
  "user_config (demo_env fs_local_not_int) (config_finder (demo_mcp fs_local_not_int)) = Inr []
   \<and> \<not> has_section [] (mcp_program_name (demo_mcp fs_local_not_int))
   \<and> parse_user_config (demo_env fs_local_not_int) (demo_mcp fs_local_not_int) = Inr None
   \<and> parse_local_config (demo_env fs_local_not_int) (demo_mcp fs_local_not_int) = Inl ValueError
   \<and> parse (demo_env fs_local_not_int) (demo_mcp fs_local_not_int) = Inl ValueError
   \<and> parse (demo_env fs_local_not_int) (demo_mcp fs_local_not_int) \<noteq> Inl AttributeError"
  unfolding demo_mcp_def by code_simp

text \<open>
  C10, witness: no user file, and a local \<^verbatim>\<open>tox.ini\<close> with a valid \<^verbatim>\<open>flake8\<close> section;
  and no user file with a local section that does not convert.
\<close>

theorem parse_fails_without_user_section_witness:
  "demo_parser (demo_env fs_local_only) = Inr (demo_mcp fs_local_only)
   \<and> user_config (demo_env fs_local_only) (config_finder (demo_mcp fs_local_only)) = Inr []
   \<and> \<not> has_section [] (mcp_program_name (demo_mcp fs_local_only))
   \<and> local_configs (demo_env fs_local_only) (config_finder (demo_mcp fs_local_only))
       = Inr [(''flake8'', [(''ignore'', ''E1'')])]
   \<and> parse_user_config (demo_env fs_local_only) (demo_mcp fs_local_only) = Inr None
   \<and> parse_local_config (demo_env fs_local_only) (demo_mcp fs_local_only) = Inr None
   \<and> parse (demo_env fs_local_only) (demo_mcp fs_local_only) = Inl AttributeError
   \<and> parse_local_config (demo_env fs_local_not_int) (demo_mcp fs_local_not_int) = Inl ValueError
   \<and> parse (demo_env fs_local_not_int) (demo_mcp fs_local_not_int) = Inl ValueError"
proof -
  have u: "user_config (demo_env fs_local_only) (config_finder (demo_mcp fs_local_only)) = Inr []"
    unfolding demo_mcp_def by code_simp
  have s: "\<not> has_section [] (mcp_program_name (demo_mcp fs_local_only))"
    by (simp add: has_section_def)
  have l: "local_configs (demo_env fs_local_only) (config_finder (demo_mcp fs_local_only))
       = Inr [(''flake8'', [(''ignore'', ''E1'')])]"
    unfolding demo_mcp_def by code_simp
  have pl: "parse_local_config (demo_env fs_local_only) (demo_mcp fs_local_only) = Inr None"
    unfolding demo_mcp_def by code_simp
  have u2: "user_config (demo_env fs_local_not_int) (config_finder (demo_mcp fs_local_not_int))
              = Inr []"
    unfolding demo_mcp_def by code_simp
  have s2: "\<not> has_section [] (mcp_program_name (demo_mcp fs_local_not_int))"
    by (simp add: has_section_def)
  have pl2: "parse_local_config (demo_env fs_local_not_int) (demo_mcp fs_local_not_int)
               = Inl ValueError"
    unfolding demo_mcp_def by code_simp
  show ?thesis
    using parse_fails_without_user_section
            [of "demo_env fs_local_only" "demo_mcp fs_local_only" "[]"] u s l pl
          parse_fails_without_user_section
            [of "demo_env fs_local_not_int" "demo_mcp fs_local_not_int" "[]"] u2 s2 pl2
          demo_parser_built [of fs_local_only]
    by simp
qed

text \<open>
  C1, the code at a failing input. The local file sets \<^verbatim>\<open>ignore = E1\<close> and the user file
  sets \<^verbatim>\<open>ignore = E2\<close>; both sections are found, both parses return \<^verbatim>\<open>None\<close>, and
  \<^verbatim>\<open>parse\<close> raises instead of returning the mapping with the local value.
\<close>

theorem parse_overlapping_key_raises:
  "demo_run fs_both (\<lambda>E M. local_configs E (config_finder M))
     = Inr [(''flake8'', [(''ignore'', ''E1'')])]
   \<and> demo_run fs_both (\<lambda>E M. user_config E (config_finder M))
     = Inr [(''flake8'', [(''ignore'', ''E2'')])]
   \<and> demo_run fs_both parse_local_config = Inr None
   \<and> demo_run fs_both parse_user_config = Inr None
   \<and> demo_run fs_both parse = Inl AttributeError"
  by code_simp

text \<open>
  C2, the code at a failing input. With no configuration file at all, neither configuration
  has the section, both parses return \<^verbatim>\<open>None\<close>, and \<^verbatim>\<open>parse\<close> raises instead of
  returning an empty mapping.
\<close>

theorem parse_no_section_anywhere_raises:
  "demo_run fs_empty (\<lambda>E M. local_configs E (config_finder M)) = Inr []
   \<and> demo_run fs_empty (\<lambda>E M. user_config E (config_finder M)) = Inr []
   \<and> demo_run fs_empty parse_local_config = Inr None
   \<and> demo_run fs_empty parse_user_config = Inr None
   \<and> demo_run fs_empty parse = Inl AttributeError"
  by code_simp

text \<open>
  C3, the code at a failing input. Given the user's configuration (\<^verbatim>\<open>ignore = E2\<close>) while
  the local one holds \<^verbatim>\<open>ignore = E1\<close>, the loop accumulates the local value \<^verbatim>\<open>E1\<close>, and
  \<^verbatim>\<open>_parse_config\<close> returns \<^verbatim>\<open>None\<close>, not the accumulated mapping; a key that only the
  given configuration has makes it raise \<^verbatim>\<open>NoOptionError\<close>.
\<close>

theorem parse_config_reads_local_and_returns_None:
  "demo_run fs_both
     (\<lambda>E M. parse_config_loop E M [(''flake8'', [(''ignore'', ''E1'')])] [''ignore''] [])
     = Inr [(''ignore'', PStr ''E1'')]
   \<and> demo_run fs_both (\<lambda>E M. parse_config E M [(''flake8'', [(''ignore'', ''E2'')])])
     = Inr None
   \<and> demo_run fs_both
       (\<lambda>E M. parse_config E M
          [(''flake8'', [(''ignore'', ''E2''), (''max_line_length'', ''100'')])])
     = Inl NoOptionError"
  by code_simp

section \<open>Lemmas on paths\<close>

lemma str_split_no_sep: "c \<notin> set w \<Longrightarrow> str_split c w = [w]"
  by (induction w) auto

lemma str_split_append_sep:
  "c \<notin> set w \<Longrightarrow> str_split c (w @ c # rest) = w # str_split c rest"
  by (induction w) auto

lemma str_split_parts_sep_free: "w \<in> set (str_split c s) \<Longrightarrow> c \<notin> set w"
  by (induction s arbitrary: w) (auto split: if_splits list.splits)

lemma str_split_not_Nil: "str_split c s \<noteq> []"
  by (induction s) (auto split: list.splits)

lemma str_join_Cons: "ws \<noteq> [] \<Longrightarrow> str_join sep (w # ws) = w @ sep @ str_join sep ws"
  by (cases ws) auto

lemma str_join_snoc: "ws \<noteq> [] \<Longrightarrow> str_join sep (ws @ [w]) = str_join sep ws @ sep @ w"
  by (induction sep ws rule: str_join.induct) auto

lemma str_split_join:
  "cs \<noteq> [] \<Longrightarrow> \<forall>w\<in>set cs. c \<notin> set w \<Longrightarrow> str_split c (str_join [c] cs) = cs"
proof (induction cs)
  case Nil
  then show ?case by simp
next
  case (Cons w cs)
  show ?case
  proof (cases "cs = []")
    case True
    then show ?thesis using Cons.prems by (simp add: str_split_no_sep)
  next
    case False
    then show ?thesis
      using Cons by (simp add: str_join_Cons str_split_append_sep)
  qed
qed

lemma plain_nameD:
  "plain_name n \<Longrightarrow> n \<noteq> [] \<and> CHR ''/'' \<notin> set n \<and> n \<noteq> ''.'' \<and> n \<noteq> ''..''"
  by (simp add: plain_name_def)

lemma str_join_plain_hd:
  "cs \<noteq> [] \<Longrightarrow> list_all plain_name cs \<Longrightarrow>
     str_join ''/'' cs \<noteq> [] \<and> hd (str_join ''/'' cs) \<noteq> CHR ''/''"
proof -
  assume ne: "cs \<noteq> []" and pl: "list_all plain_name cs"
  then obtain w ws where cs: "cs = w # ws" by (cases cs) auto
  then have w: "w \<noteq> []" "hd w \<noteq> CHR ''/''"
    using pl by (auto simp: plain_name_def dest: hd_in_set)
  then show ?thesis
    unfolding cs by (cases ws) auto
qed

lemma str_join_plain_last:
  "cs \<noteq> [] \<Longrightarrow> list_all plain_name cs \<Longrightarrow> last (str_join ''/'' cs) \<noteq> CHR ''/''"
proof (induction cs rule: rev_induct)
  case Nil
  then show ?case by simp
next
  case (snoc w cs)
  then have w: "w \<noteq> []" "CHR ''/'' \<notin> set w" by (auto simp: plain_name_def)
  then have "last w \<noteq> CHR ''/''" using last_in_set by metis
  then show ?case
    using w by (cases "cs = []") (simp_all add: str_join_snoc)
qed

lemma path_root_render:
  assumes "is_root r" "list_all plain_name cs"
  shows "path_root (render r cs) = r"
proof (cases "cs = []")
  case True
  then show ?thesis using assms by (auto simp: path_root_def render_def is_root_def)
next
  case False
  then obtain x xs where "str_join ''/'' cs = x # xs" "x \<noteq> CHR ''/''"
    using str_join_plain_hd [OF False assms(2)] by (cases "str_join ''/'' cs") auto
  then show ?thesis using assms by (auto simp: path_root_def render_def is_root_def)
qed

lemma str_split_render:
  assumes "is_root r" "list_all plain_name cs"
  shows "str_split (CHR ''/'') (render r cs)
           = replicate (length r) [] @ (if cs = [] then [[]] else cs)"
proof -
  have sf: "\<forall>w\<in>set cs. CHR ''/'' \<notin> set w"
    using assms(2) by (auto simp: list_all_iff plain_name_def)
  have j: "str_split (CHR ''/'') (str_join ''/'' cs) = (if cs = [] then [[]] else cs)"
    using str_split_join [of cs "CHR ''/''"] sf by auto
  have "\<And>s. str_split (CHR ''/'') (CHR ''/'' # s) = [] # str_split (CHR ''/'') s"
    by simp
  then show ?thesis
    using assms(1) j by (auto simp: render_def is_root_def)
qed

lemma path_components_render:
  assumes "is_root r" "list_all plain_name cs"
  shows "path_components (render r cs) = cs"
proof -
  have "filter (\<lambda>w. w \<noteq> []) cs = cs"
    using assms(2) by (auto simp: list_all_iff plain_name_def intro: filter_True)
  then show ?thesis
    using assms(1) by (auto simp: path_components_def str_split_render [OF assms] is_root_def)
qed

lemma posix_split_root: "is_root r \<Longrightarrow> posix_split r = (r, [])"
  by (auto simp: posix_split_def is_root_def Let_def)

lemma posix_split_render_snoc:
  assumes "is_root r" "list_all plain_name cs" "plain_name c"
  shows "posix_split (render r (cs @ [c])) = (render r cs, c)"
proof -
  have c: "CHR ''/'' \<notin> set c" "c \<noteq> []" using assms(3) by (auto simp: plain_name_def)
  define pre where "pre = (if cs = [] then r else render r cs @ ''/'')"
  have whole: "render r (cs @ [c]) = pre @ c"
    by (cases "cs = []") (auto simp: pre_def render_def str_join_snoc)
  have pre_last: "pre \<noteq> [] \<and> last pre = CHR ''/''"
    using assms(1) by (auto simp: pre_def is_root_def)
  then obtain q where q: "pre = q @ ''/''"
    by (metis append_butlast_last_id)
  have tk: "takeWhile (\<lambda>x. x \<noteq> CHR ''/'') (rev (pre @ c)) = rev c"
    using c q by (simp add: takeWhile_append)
  have dk: "dropWhile (\<lambda>x. x \<noteq> CHR ''/'') (rev (pre @ c)) = rev pre"
    using c q by (simp add: dropWhile_append)
  have hd_part: "(if pre \<noteq> replicate (length pre) (CHR ''/'') then str_rstrip (CHR ''/'') pre else pre)
                   = render r cs"
  proof (cases "cs = []")
    case True
    then show ?thesis using assms(1) by (auto simp: pre_def render_def is_root_def)
  next
    case False
    have nl: "last (str_join ''/'' cs) \<noteq> CHR ''/''" and ne: "str_join ''/'' cs \<noteq> []"
      using str_join_plain_last [OF False assms(2)] str_join_plain_hd [OF False assms(2)] by auto
    have "last (str_join ''/'' cs) \<in> set pre"
      using False ne by (simp add: pre_def render_def)
    then have "pre \<noteq> replicate (length pre) (CHR ''/'')"
      using nl by (metis in_set_replicate)
    moreover have "str_rstrip (CHR ''/'') pre = render r cs"
    proof -
      obtain b bs where b: "rev (str_join ''/'' cs) = b # bs" "b \<noteq> CHR ''/''"
        using ne nl by (cases "str_join ''/'' cs" rule: rev_cases) auto
      show ?thesis
        using False b by (simp add: pre_def render_def str_rstrip_def)
    qed
    ultimately show ?thesis by simp
  qed
  show ?thesis
    unfolding whole posix_split_def Let_def tk dk
    using pre_last hd_part by (auto split: if_splits)
qed

lemma is_root_not_Nil: "is_root r \<Longrightarrow> r \<noteq> []"
  by (auto simp: is_root_def)

lemma generate_loop_render:
  assumes "is_root r" "list_all plain_name cs" "t \<noteq> []"
  shows "generate_loop cwd names (render r cs) t
           = concat (map (\<lambda>d. map (\<lambda>n. abspath cwd (posix_join d n)) names)
               (map (\<lambda>k. render r (take k cs)) (rev [0 ..< Suc (length cs)])))"
  using assms(2,3)
proof (induction cs arbitrary: t rule: rev_induct)
  case Nil
  have "posix_split (render r []) = (r, [])"
    using posix_split_root [OF assms(1)] by (simp add: render_def)
  then show ?case
    using Nil.prems by (simp add: generate_loop.simps [of cwd names "render r []" t]
        generate_loop.simps [of cwd names r "[]"])
next
  case (snoc c cs)
  then have pl: "list_all plain_name cs" "plain_name c" by auto
  then have c: "c \<noteq> []" by (simp add: plain_name_def)
  have sp: "posix_split (render r (cs @ [c])) = (render r cs, c)"
    using posix_split_render_snoc [OF assms(1) pl] .
  have ih: "generate_loop cwd names (render r cs) c
           = concat (map (\<lambda>d. map (\<lambda>n. abspath cwd (posix_join d n)) names)
               (map (\<lambda>k. render r (take k cs)) (rev [0 ..< Suc (length cs)])))"
    using snoc.IH [OF pl(1) c] .
  have up: "rev [0 ..< Suc (length (cs @ [c]))] = Suc (length cs) # rev [0 ..< Suc (length cs)]"
    by simp
  have tk: "map (\<lambda>k. render r (take k (cs @ [c]))) (rev [0 ..< Suc (length cs)])
              = map (\<lambda>k. render r (take k cs)) (rev [0 ..< Suc (length cs)])"
    by (rule map_cong) auto
  have "generate_loop cwd names (render r (cs @ [c])) t
          = map (\<lambda>n. abspath cwd (posix_join (render r (cs @ [c])) n)) names
            @ generate_loop cwd names (render r cs) c"
    using snoc.prems(2) sp
    by (simp add: generate_loop.simps [of cwd names "render r (cs @ [c])" t])
  also have "\<dots> = concat (map (\<lambda>d. map (\<lambda>n. abspath cwd (posix_join d n)) names)
               (render r (cs @ [c])
                  # map (\<lambda>k. render r (take k (cs @ [c]))) (rev [0 ..< Suc (length cs)])))"
    unfolding tk ih by simp
  also have "render r (cs @ [c])
                  # map (\<lambda>k. render r (take k (cs @ [c]))) (rev [0 ..< Suc (length cs)])
               = map (\<lambda>k. render r (take k (cs @ [c]))) (rev [0 ..< Suc (length (cs @ [c]))])"
    unfolding up by simp
  finally show ?case .
qed

lemma ancestors_render:
  assumes "is_root r" "list_all plain_name cs"
  shows "ancestors (render r cs) = map (\<lambda>k. render r (take k cs)) (rev [0 ..< Suc (length cs)])"
  by (simp add: ancestors_def path_root_render [OF assms] path_components_render [OF assms])

lemma list_all_take: "list_all P xs \<Longrightarrow> list_all P (take k xs)"
  by (auto simp: list_all_iff dest: in_set_takeD)

lemma ancestors_distinct:
  assumes "is_root r" "list_all plain_name cs"
  shows "distinct (ancestors (render r cs))"
proof -
  have "inj_on (\<lambda>k. render r (take k cs)) (set (rev [0 ..< Suc (length cs)]))"
  proof (rule inj_onI)
    fix k j
    assume k: "k \<in> set (rev [0 ..< Suc (length cs)])" and j: "j \<in> set (rev [0 ..< Suc (length cs)])"
      and eq: "render r (take k cs) = render r (take j cs)"
    have a: "path_components (render r (take k cs)) = take k cs"
      by (rule path_components_render [OF assms(1) list_all_take [OF assms(2)]])
    have b: "path_components (render r (take j cs)) = take j cs"
      by (rule path_components_render [OF assms(1) list_all_take [OF assms(2)]])
    have "take k cs = take j cs" by (metis a b eq)
    then have "length (take k cs) = length (take j cs)" by (rule arg_cong)
    moreover have "k \<le> length cs" "j \<le> length cs" using k j by auto
    ultimately show "k = j" by simp
  qed
  then show ?thesis
    unfolding ancestors_render [OF assms] by (simp add: distinct_map)
qed

lemma ancestors_ends:
  assumes "is_root r" "list_all plain_name cs"
  shows "hd (ancestors (render r cs)) = render r cs \<and> last (ancestors (render r cs)) = r"
proof -
  have "rev [0 ..< Suc (length cs)] = length cs # rev [0 ..< length cs]"
    by simp
  then have h: "hd (ancestors (render r cs)) = render r cs"
    unfolding ancestors_render [OF assms] by simp
  have "[0 ..< Suc (length cs)] = 0 # [Suc 0 ..< Suc (length cs)]"
    by (rule upt_conv_Cons) simp
  then have "rev [0 ..< Suc (length cs)] = rev [Suc 0 ..< Suc (length cs)] @ [0]"
    by simp
  then have "last (ancestors (render r cs)) = render r (take 0 cs)"
    unfolding ancestors_render [OF assms] by simp
  then show ?thesis
    using h by (simp add: render_def)
qed

lemma normpath_step_plain:
  assumes "0 < n" "list_all plain_name acc" "CHR ''/'' \<notin> set w"
  shows "list_all plain_name (normpath_step n acc w)"
proof -
  have "list_all plain_name (butlast acc)"
    using assms(2) by (auto simp: list_all_iff dest: in_set_butlastD)
  moreover have "acc \<noteq> [] \<Longrightarrow> last acc \<noteq> ''..''"
    using assms(2) by (auto simp: list_all_iff plain_name_def dest: last_in_set)
  ultimately show ?thesis
    using assms by (auto simp: normpath_step_def plain_name_def)
qed

lemma normpath_loop_plain:
  "0 < n \<Longrightarrow> list_all plain_name acc \<Longrightarrow> \<forall>w\<in>set ws. CHR ''/'' \<notin> set w \<Longrightarrow>
     list_all plain_name (foldl (normpath_step n) acc ws)"
  by (induction ws arbitrary: acc) (auto intro: normpath_step_plain)

lemma count_initial_slashes_abs:
  "isabs p \<Longrightarrow> count_initial_slashes p = 1 \<or> count_initial_slashes p = 2"
  by (simp add: count_initial_slashes_def)

lemma normpath_abs_form:
  assumes "isabs p"
  shows "\<exists>r cs. is_root r \<and> list_all plain_name cs \<and> normpath p = render r cs"
proof -
  define n where "n = count_initial_slashes p"
  define cs where "cs = foldl (normpath_step n) [] (str_split (CHR ''/'') p)"
  have n: "n = 1 \<or> n = 2"
    using count_initial_slashes_abs [OF assms] by (simp add: n_def)
  then have root: "is_root (replicate n (CHR ''/''))"
    by (auto simp: is_root_def numeral_2_eq_2)
  have "list_all plain_name cs"
    unfolding cs_def using n
    by (intro normpath_loop_plain) (auto dest: str_split_parts_sep_free)
  moreover have "p \<noteq> []" using assms by (auto simp: isabs_def)
  then have "normpath p = render (replicate n (CHR ''/'')) cs"
    using n by (auto simp: normpath_def Let_def n_def cs_def render_def)
  ultimately show ?thesis using root by blast
qed

lemma normpath_loop_keeps:
  "list_all plain_name cs \<Longrightarrow> foldl (normpath_step n) acc cs = acc @ cs"
  by (induction cs arbitrary: acc) (auto simp: normpath_step_def plain_name_def)

lemma isabs_render: "is_root r \<Longrightarrow> isabs (render r cs)"
  by (auto simp: is_root_def render_def isabs_def)

lemma count_initial_slashes_render:
  assumes "is_root r" "list_all plain_name cs"
  shows "count_initial_slashes (render r cs) = length r"
proof (cases "cs = []")
  case True
  then show ?thesis
    using assms(1) by (auto simp: count_initial_slashes_def render_def is_root_def isabs_def)
next
  case False
  then obtain x xs where x: "str_join ''/'' cs = x # xs" "x \<noteq> CHR ''/''"
    using str_join_plain_hd [OF False assms(2)] by (cases "str_join ''/'' cs") auto
  then show ?thesis
    using assms(1) by (auto simp: count_initial_slashes_def render_def is_root_def isabs_def)
qed

lemma normpath_render:
  assumes "is_root r" "list_all plain_name cs"
  shows "normpath (render r cs) = render r cs"
proof -
  have ne: "render r cs \<noteq> []"
    using assms(1) by (auto simp: render_def is_root_def)
  have empties: "foldl (normpath_step (length r)) [] (replicate (length r) [] @ ws)
                   = foldl (normpath_step (length r)) [] ws" for ws
    using assms(1) by (auto simp: is_root_def normpath_step_def)
  have loop: "foldl (normpath_step (length r)) [] (str_split (CHR ''/'') (render r cs)) = cs"
    unfolding str_split_render [OF assms] empties
    using normpath_loop_keeps [OF assms(2), of "length r" "[]"]
    by (auto simp: normpath_step_def)
  have rep: "replicate (length r) (CHR ''/'') = r"
    using assms(1) by (auto simp: is_root_def)
  have "normpath (render r cs) = replicate (length r) (CHR ''/'') @ str_join ''/'' cs"
    using ne assms(1)
    by (simp add: normpath_def Let_def count_initial_slashes_render [OF assms] loop is_root_not_Nil)
  then show ?thesis
    by (simp add: rep render_def)
qed

lemma posix_join_render:
  assumes "is_root r" "list_all plain_name cs" "plain_name n"
  shows "posix_join (render r cs) n = render r (cs @ [n])"
proof -
  have n: "\<not> isabs n"
    using assms(3) by (cases n) (auto simp: plain_name_def isabs_def)
  show ?thesis
  proof (cases "cs = []")
    case True
    then show ?thesis
      using n assms(1) by (auto simp: posix_join_def render_def is_root_def)
  next
    case False
    then have "last (render r cs) \<noteq> CHR ''/''" "render r cs \<noteq> []"
      using str_join_plain_last [OF False assms(2)] str_join_plain_hd [OF False assms(2)]
      by (auto simp: render_def)
    then show ?thesis
      using n False by (simp add: posix_join_def render_def str_join_snoc)
  qed
qed

lemma abspath_join_render:
  assumes "is_root r" "list_all plain_name cs" "plain_name n"
  shows "abspath cwd (posix_join (render r cs) n) = render r (cs @ [n])"
proof -
  have pl: "list_all plain_name (cs @ [n])" using assms by simp
  show ?thesis
    unfolding posix_join_render [OF assms] abspath_def
    using isabs_render [OF assms(1)] normpath_render [OF assms(1) pl] by simp
qed

lemma abspath_form:
  assumes "isabs cwd"
  shows "\<exists>r cs. is_root r \<and> list_all plain_name cs \<and> abspath cwd p = render r cs"
proof -
  have "isabs (if isabs p then p else posix_join cwd p)"
    using assms by (cases cwd) (auto simp: posix_join_def isabs_def)
  then show ?thesis
    unfolding abspath_def by (rule normpath_abs_form)
qed

section \<open>The common prefix\<close>

lemma foldl_min_least:
  fixes x :: "'a::linorder"
  shows "foldl min x xs \<in> set (x # xs) \<and> (\<forall>y\<in>set (x # xs). foldl min x xs \<le> y)"
proof (induction xs arbitrary: x)
  case Nil
  then show ?case by simp
next
  case (Cons a xs)
  show ?case
    using Cons [of "min x a"] by (auto simp: min_def split: if_splits)
qed

lemma foldl_max_greatest:
  fixes x :: "'a::linorder"
  shows "foldl max x xs \<in> set (x # xs) \<and> (\<forall>y\<in>set (x # xs). y \<le> foldl max x xs)"
proof (induction xs arbitrary: x)
  case Nil
  then show ?case by simp
next
  case (Cons a xs)
  show ?case
    using Cons [of "max x a"] by (auto simp: max_def split: if_splits)
qed

lemma commonprefix_scan_longest:
  fixes s1 s2 :: string
  assumes "s1 \<le> s2"
  shows "\<exists>r. commonprefix_scan s1 s2 = Inr r \<and> prefix r s1 \<and> prefix r s2
           \<and> (\<forall>q. prefix q s1 \<and> prefix q s2 \<longrightarrow> prefix q r)"
  using assms
proof (induction s1 s2 rule: commonprefix_scan.induct)
  case (1 s2)
  then show ?case by simp
next
  case (2 c s1)
  then show ?case by simp
next
  case (3 c s1 d s2)
  show ?case
  proof (cases "c = d")
    case True
    then have "s1 \<le> s2" using 3(2) by simp
    then obtain r where r: "commonprefix_scan s1 s2 = Inr r" "prefix r s1" "prefix r s2"
        "\<forall>q. prefix q s1 \<and> prefix q s2 \<longrightarrow> prefix q r"
      using 3(1) True by blast
    have "\<forall>q. prefix q (c # s1) \<and> prefix q (d # s2) \<longrightarrow> prefix q (c # r)"
      using r(4) True by (auto simp: prefix_Cons)
    then show ?thesis using r True by simp
  next
    case False
    then have "\<forall>q. prefix q (c # s1) \<and> prefix q (d # s2) \<longrightarrow> prefix q []"
      by (auto simp: prefix_Cons)
    then show ?thesis using False by simp
  qed
qed

lemma prefix_between:
  fixes s1 s2 y :: string
  shows "prefix q s1 \<Longrightarrow> prefix q s2 \<Longrightarrow> s1 \<le> y \<Longrightarrow> y \<le> s2 \<Longrightarrow> prefix q y"
proof (induction q arbitrary: s1 s2 y)
  case Nil
  then show ?case by simp
next
  case (Cons c q)
  obtain t1 where t1: "s1 = c # t1" "prefix q t1"
    using Cons.prems(1) by (cases s1) auto
  obtain t2 where t2: "s2 = c # t2" "prefix q t2"
    using Cons.prems(2) by (cases s2) auto
  note s = t1(1) t2(1) t1(2) t2(2)
  obtain e y' where y: "y = e # y'"
    using Cons.prems(3) s(1) by (cases y) auto
  have "c = e \<and> t1 \<le> y' \<and> y' \<le> t2"
    using Cons.prems(3,4) unfolding s y by auto
  then show ?case
    using Cons.IH [OF s(3,4)] y by simp
qed

lemma commonprefix_longest:
  assumes "m \<noteq> []"
  shows "\<exists>pre. commonprefix m = Inr pre \<and> (\<forall>p\<in>set m. prefix pre p)
           \<and> (\<forall>q. (\<forall>p\<in>set m. prefix q p) \<longrightarrow> prefix q pre)"
proof -
  obtain x xs where m: "m = x # xs" using assms by (cases m) auto
  define s1 where "s1 = foldl min x xs"
  define s2 where "s2 = foldl max x xs"
  have s1: "s1 \<in> set m" "\<forall>y\<in>set m. s1 \<le> y"
    using foldl_min_least [of x xs] by (auto simp: s1_def m)
  have s2: "s2 \<in> set m" "\<forall>y\<in>set m. y \<le> s2"
    using foldl_max_greatest [of x xs] by (auto simp: s2_def m)
  have "s1 \<le> s2" using s1 s2 by blast
  then obtain r where r: "commonprefix_scan s1 s2 = Inr r" "prefix r s1" "prefix r s2"
      "\<forall>q. prefix q s1 \<and> prefix q s2 \<longrightarrow> prefix q r"
    using commonprefix_scan_longest by blast
  have a: "commonprefix m = Inr r"
    using r(1) by (simp add: commonprefix_def m s1_def s2_def)
  have b: "\<forall>p\<in>set m. prefix r p"
    using prefix_between [OF r(2,3)] s1(2) s2(2) by blast
  have c: "\<forall>q. (\<forall>p\<in>set m. prefix q p) \<longrightarrow> prefix q r"
    using r(4) s1(1) s2(1) by blast
  show ?thesis
    by (rule exI [of _ r]) (use a b c in blast)
qed

section \<open>The candidate walk\<close>

lemma ConfigFileFinder_init_parent:
  assumes "ConfigFileFinder_init E prog paths = Inr F"
  shows "\<exists>pre. parent F = abspath (getcwd E) pre \<and> tail F = parent F
           \<and> project_filenames F = [''setup.cfg'', ''tox.ini'', ''.'' @ prog]"
  using assms by (auto simp: ConfigFileFinder_init_def Let_def split: sum.splits)

lemma in_directory_render:
  assumes "is_root r" "list_all plain_name cs" "plain_name n"
  shows "in_directory (render r cs) n = render r (cs @ [n])"
proof -
  have "in_directory (render r cs) n = posix_join (render r cs) n"
    using assms(1,3) by (cases n) (auto simp: in_directory_def posix_join_def isabs_def
        plain_name_def render_def is_root_def)
  then show ?thesis
    using posix_join_render [OF assms] by simp
qed

lemma ancestors_render_form:
  assumes "is_root r" "list_all plain_name cs" "d \<in> set (ancestors (render r cs))"
  shows "\<exists>k. d = render r (take k cs)"
proof -
  have "d \<in> (\<lambda>k. render r (take k cs)) ` set (rev [0 ..< Suc (length cs)])"
    using assms(3) unfolding ancestors_render [OF assms(1,2)] set_map .
  then show ?thesis by blast
qed

lemma plain_project_names:
  "plain_name ''setup.cfg''" "plain_name ''tox.ini''"
  by (simp_all add: plain_name_def)

text \<open>
  C7. For every finder the constructor returns (the working directory being an absolute
  path), the candidate sequence is the finite list that holds, for each directory from
  the common ancestor up to and including the root, the names \<^verbatim>\<open>setup.cfg\<close>,
  \<^verbatim>\<open>tox.ini\<close> and \<^verbatim>\<open>.<program_name>\<close> joined with that directory and made absolute, in
  that order. The directories start at the common ancestor, end at the root, and are
  pairwise distinct, so each is visited once. When \<^verbatim>\<open>.<program_name>\<close> is an ordinary
  file name, each candidate is the directory, one slash, and the name.
\<close>

theorem local_candidates_walk_to_root:
  "ConfigFileFinder_init E prog paths = Inr F \<and> isabs (getcwd E) \<longrightarrow>
     generate_possible_local_config_files E F
       = concat (map (\<lambda>d. map (\<lambda>n. abspath (getcwd E) (posix_join d n))
                             [''setup.cfg'', ''tox.ini'', ''.'' @ prog])
                  (ancestors (parent F)))
     \<and> hd (ancestors (parent F)) = parent F
     \<and> last (ancestors (parent F)) = path_root (parent F)
     \<and> (path_root (parent F) = ''/'' \<or> path_root (parent F) = ''//'')
     \<and> distinct (ancestors (parent F))
     \<and> (plain_name (''.'' @ prog) \<longrightarrow>
          generate_possible_local_config_files E F
            = concat (map (\<lambda>d. [in_directory d ''setup.cfg'', in_directory d ''tox.ini'',
                                in_directory d (''.'' @ prog)])
                       (ancestors (parent F))))"
proof
  assume h: "ConfigFileFinder_init E prog paths = Inr F \<and> isabs (getcwd E)"
  then obtain pre where F: "parent F = abspath (getcwd E) pre" "tail F = parent F"
      "project_filenames F = [''setup.cfg'', ''tox.ini'', ''.'' @ prog]"
    using ConfigFileFinder_init_parent by blast
  obtain r cs where rc: "is_root r" "list_all plain_name cs" "parent F = render r cs"
    using abspath_form [of "getcwd E" pre] h F(1) by auto
  have ne: "render r cs \<noteq> []"
    using rc(1) by (auto simp: render_def is_root_def)
  have gen: "generate_possible_local_config_files E F
       = concat (map (\<lambda>d. map (\<lambda>n. abspath (getcwd E) (posix_join d n))
                             [''setup.cfg'', ''tox.ini'', ''.'' @ prog])
                  (ancestors (parent F)))"
    unfolding generate_possible_local_config_files_def F(2,3) rc(3)
      ancestors_render [OF rc(1,2)]
    by (rule generate_loop_render [OF rc(1,2) ne])
  have ends: "hd (ancestors (parent F)) = parent F" "last (ancestors (parent F)) = path_root (parent F)"
    using ancestors_ends [OF rc(1,2)] path_root_render [OF rc(1,2)] by (simp_all add: rc(3))
  have root: "path_root (parent F) = ''/'' \<or> path_root (parent F) = ''//''"
    using path_root_render [OF rc(1,2)] rc(1) by (simp add: rc(3) is_root_def)
  have dist: "distinct (ancestors (parent F))"
    using ancestors_distinct [OF rc(1,2)] by (simp add: rc(3))
  have plain: "generate_possible_local_config_files E F
            = concat (map (\<lambda>d. [in_directory d ''setup.cfg'', in_directory d ''tox.ini'',
                                in_directory d (''.'' @ prog)])
                       (ancestors (parent F)))" if p: "plain_name (''.'' @ prog)"
  proof -
    have "map (\<lambda>n. abspath (getcwd E) (posix_join d n)) [''setup.cfg'', ''tox.ini'', ''.'' @ prog]
            = [in_directory d ''setup.cfg'', in_directory d ''tox.ini'', in_directory d (''.'' @ prog)]"
      if d: "d \<in> set (ancestors (parent F))" for d
    proof -
      obtain k where k: "d = render r (take k cs)"
        using ancestors_render_form [OF rc(1,2)] d by (auto simp: rc(3))
      have tk: "list_all plain_name (take k cs)"
        by (rule list_all_take [OF rc(2)])
      have "abspath (getcwd E) (posix_join d n) = in_directory d n" if "plain_name n" for n
        unfolding k abspath_join_render [OF rc(1) tk that] in_directory_render [OF rc(1) tk that]
        by (rule refl)
      then have "abspath (getcwd E) (posix_join d ''setup.cfg'') = in_directory d ''setup.cfg''"
        "abspath (getcwd E) (posix_join d ''tox.ini'') = in_directory d ''tox.ini''"
        "abspath (getcwd E) (posix_join d (''.'' @ prog)) = in_directory d (''.'' @ prog)"
        using plain_project_names p by blast+
      then show ?thesis
        by (simp del: append.simps)
    qed
    then have meq: "map (\<lambda>d. map (\<lambda>n. abspath (getcwd E) (posix_join d n))
                             [''setup.cfg'', ''tox.ini'', ''.'' @ prog]) (ancestors (parent F))
             = map (\<lambda>d. [in_directory d ''setup.cfg'', in_directory d ''tox.ini'',
                                in_directory d (''.'' @ prog)]) (ancestors (parent F))"
      by (intro map_cong) auto
    show ?thesis
      unfolding gen meq by (rule refl)
  qed
  show "generate_possible_local_config_files E F
       = concat (map (\<lambda>d. map (\<lambda>n. abspath (getcwd E) (posix_join d n))
                             [''setup.cfg'', ''tox.ini'', ''.'' @ prog])
                  (ancestors (parent F)))
     \<and> hd (ancestors (parent F)) = parent F
     \<and> last (ancestors (parent F)) = path_root (parent F)
     \<and> (path_root (parent F) = ''/'' \<or> path_root (parent F) = ''//'')
     \<and> distinct (ancestors (parent F))
     \<and> (plain_name (''.'' @ prog) \<longrightarrow>
          generate_possible_local_config_files E F
            = concat (map (\<lambda>d. [in_directory d ''setup.cfg'', in_directory d ''tox.ini'',
                                in_directory d (''.'' @ prog)])
                       (ancestors (parent F))))"
    using gen ends root dist plain by blast
qed

lemma demo_finder_built:
  "ConfigFileFinder_init (demo_env fs) ''flake8'' (Some [''/a/b'', ''/a/c'']) = Inr demo_finder"
  by code_simp

text \<open>
  C7, witness: the finder for the input paths \<^verbatim>\<open>/a/b\<close> and \<^verbatim>\<open>/a/c\<close> visits \<^verbatim>\<open>/a\<close>, then
  \<^verbatim>\<open>/\<close>, and stops.
\<close>

theorem local_candidates_walk_to_root_witness:
  "ConfigFileFinder_init (demo_env fs_empty) ''flake8'' (Some [''/a/b'', ''/a/c'']) = Inr demo_finder
   \<and> isabs (getcwd (demo_env fs_empty))
   \<and> plain_name ''.flake8''
   \<and> ancestors (parent demo_finder) = [''/a'', ''/'']
   \<and> generate_possible_local_config_files (demo_env fs_empty) demo_finder
       = [''/a/setup.cfg'', ''/a/tox.ini'', ''/a/.flake8'',
          ''/setup.cfg'', ''/tox.ini'', ''/.flake8'']"
proof -
  have h: "ConfigFileFinder_init (demo_env fs_empty) ''flake8'' (Some [''/a/b'', ''/a/c''])
             = Inr demo_finder \<and> isabs (getcwd (demo_env fs_empty))"
    using demo_finder_built by (simp add: demo_env_def isabs_def)
  have p: "plain_name (''.'' @ ''flake8'')"
    by (simp add: plain_name_def)
  have a: "ancestors (parent demo_finder) = [''/a'', ''/'']"
    by code_simp
  have "generate_possible_local_config_files (demo_env fs_empty) demo_finder
          = concat (map (\<lambda>d. [in_directory d ''setup.cfg'', in_directory d ''tox.ini'',
                                in_directory d (''.'' @ ''flake8'')])
                       (ancestors (parent demo_finder)))"
    using local_candidates_walk_to_root
            [of "demo_env fs_empty" "''flake8''" "Some [''/a/b'', ''/a/c'']" demo_finder] h p
    by blast
  then have "generate_possible_local_config_files (demo_env fs_empty) demo_finder
       = [''/a/setup.cfg'', ''/a/tox.ini'', ''/a/.flake8'',
          ''/setup.cfg'', ''/tox.ini'', ''/.flake8'']"
    unfolding a by (simp add: in_directory_def)
  then show ?thesis
    using h p a by simp
qed

section \<open>The common ancestor\<close>

lemma str_split_append:
  "str_split c (a @ c # b) = str_split c a @ str_split c b"
proof (induction a)
  case Nil
  then show ?case by simp
next
  case (Cons x a)
  then show ?case
    using str_split_not_Nil [of c a] by (cases "str_split c a") auto
qed

lemma count_initial_slashes_dot:
  assumes "isabs cwd"
  shows "count_initial_slashes (cwd @ ''.'') = count_initial_slashes cwd"
proof (cases cwd)
  case Nil
  then show ?thesis using assms by (simp add: isabs_def)
next
  case (Cons c1 r1)
  show ?thesis
  proof (cases r1)
    case Nil
    then show ?thesis using Cons by (simp add: count_initial_slashes_def isabs_def)
  next
    case (Cons c2 r2)
    then show ?thesis
      using \<open>cwd = c1 # r1\<close> by (cases r2) (simp_all add: count_initial_slashes_def isabs_def)
  qed
qed

lemma count_initial_slashes_slash_dot:
  assumes "isabs cwd" "last cwd \<noteq> CHR ''/''"
  shows "count_initial_slashes (cwd @ ''/.'') = count_initial_slashes cwd"
proof (cases cwd)
  case Nil
  then show ?thesis using assms by (simp add: isabs_def)
next
  case (Cons c1 r1)
  show ?thesis
  proof (cases r1)
    case Nil
    then show ?thesis using Cons assms by (simp add: count_initial_slashes_def isabs_def)
  next
    case (Cons c2 r2)
    then show ?thesis
      using \<open>cwd = c1 # r1\<close> assms
      by (cases r2) (auto simp: count_initial_slashes_def isabs_def)
  qed
qed

lemma normpath_cong:
  assumes "p \<noteq> []" "p' \<noteq> []" "count_initial_slashes p' = count_initial_slashes p"
    and "foldl (normpath_step (count_initial_slashes p)) [] (str_split (CHR ''/'') p')
           = foldl (normpath_step (count_initial_slashes p)) [] (str_split (CHR ''/'') p)"
  shows "normpath p' = normpath p"
  unfolding normpath_def Let_def assms(3) assms(4) using assms(1,2) by simp

lemma abspath_dot:
  assumes "isabs cwd"
  shows "abspath cwd ''.'' = normpath cwd"
proof -
  have ne: "cwd \<noteq> []" using assms by (auto simp: isabs_def)
  define n where "n = count_initial_slashes cwd"
  show ?thesis
  proof (cases "last cwd = CHR ''/''")
    case True
    then obtain q where q: "cwd = q @ ''/''"
      using ne by (metis append_butlast_last_id)
    have j: "posix_join cwd ''.'' = cwd @ ''.''"
      using True ne by (simp add: posix_join_def isabs_def)
    have "str_split (CHR ''/'') (cwd @ ''.'') = str_split (CHR ''/'') q @ [''.'']"
      unfolding q using str_split_append [of "CHR ''/''" q "''.''"] by simp
    moreover have "str_split (CHR ''/'') cwd = str_split (CHR ''/'') q @ [[]]"
      unfolding q using str_split_append [of "CHR ''/''" q "[]"] by simp
    ultimately have "foldl (normpath_step n) [] (str_split (CHR ''/'') (cwd @ ''.''))
              = foldl (normpath_step n) [] (str_split (CHR ''/'') cwd)"
      by (simp add: normpath_step_def)
    then have "normpath (cwd @ ''.'') = normpath cwd"
      unfolding n_def
      by (intro normpath_cong) (use ne count_initial_slashes_dot [OF assms] in simp_all)
    then show ?thesis
      by (simp add: abspath_def isabs_def j)
  next
    case False
    have j: "posix_join cwd ''.'' = cwd @ ''/.''"
      using False ne by (simp add: posix_join_def isabs_def)
    have "str_split (CHR ''/'') (cwd @ ''/.'') = str_split (CHR ''/'') cwd @ [''.'']"
      using str_split_append [of "CHR ''/''" cwd "''.''"] by simp
    then have "foldl (normpath_step n) [] (str_split (CHR ''/'') (cwd @ ''/.''))
              = foldl (normpath_step n) [] (str_split (CHR ''/'') cwd)"
      by (simp add: normpath_step_def)
    then have "normpath (cwd @ ''/.'') = normpath cwd"
      unfolding n_def
      by (intro normpath_cong)
        (use ne count_initial_slashes_slash_dot [OF assms False] in simp_all)
    then show ?thesis
      by (simp add: abspath_def isabs_def j)
  qed
qed

text \<open>
  C8, as amended. For every non-empty list of input paths the constructor succeeds and the
  common ancestor is the longest common prefix of the path strings, character by
  character (a prefix of every input path, and every common prefix of the input paths is
  a prefix of it), resolved by \<^verbatim>\<open>abspath\<close>: with an absolute working directory it is an
  absolute, normalised path. For an empty list, or none, it is the current directory:
  \<^verbatim>\<open>abspath('.')\<close>, the normalised working directory.
\<close>

theorem common_ancestor_is_string_prefix:
  "(paths = Some m \<and> m \<noteq> [] \<longrightarrow>
      (\<exists>pre F. commonprefix m = Inr pre
         \<and> (\<forall>p\<in>set m. prefix pre p)
         \<and> (\<forall>q. (\<forall>p\<in>set m. prefix q p) \<longrightarrow> prefix q pre)
         \<and> ConfigFileFinder_init E prog paths = Inr F
         \<and> parent F = abspath (getcwd E) pre \<and> tail F = parent F
         \<and> (isabs (getcwd E) \<longrightarrow> isabs (parent F) \<and> normpath (parent F) = parent F)))
   \<and> (paths = None \<or> paths = Some [] \<longrightarrow>
      (\<exists>F. ConfigFileFinder_init E prog paths = Inr F
         \<and> parent F = abspath (getcwd E) ''.'' \<and> tail F = parent F
         \<and> (isabs (getcwd E) \<longrightarrow> parent F = normpath (getcwd E))))"
proof (intro conjI impI)
  assume h: "paths = Some m \<and> m \<noteq> []"
  then obtain a as where m: "m = a # as" by (cases m) auto
  obtain pre where pre: "commonprefix m = Inr pre" "\<forall>p\<in>set m. prefix pre p"
      "\<forall>q. (\<forall>p\<in>set m. prefix q p) \<longrightarrow> prefix q pre"
    using commonprefix_longest [of m] h by blast
  obtain F where F: "ConfigFileFinder_init E prog paths = Inr F"
      "parent F = abspath (getcwd E) pre" "tail F = parent F"
    using h pre(1) by (simp add: ConfigFileFinder_init_def Let_def m)
  have "isabs (parent F) \<and> normpath (parent F) = parent F" if cw: "isabs (getcwd E)"
  proof -
    obtain r cs where "is_root r" "list_all plain_name cs" "parent F = render r cs"
      using abspath_form [OF cw, of pre] F(2) by auto
    then show ?thesis
      using isabs_render normpath_render by simp
  qed
  then show "\<exists>pre F. commonprefix m = Inr pre
         \<and> (\<forall>p\<in>set m. prefix pre p)
         \<and> (\<forall>q. (\<forall>p\<in>set m. prefix q p) \<longrightarrow> prefix q pre)
         \<and> ConfigFileFinder_init E prog paths = Inr F
         \<and> parent F = abspath (getcwd E) pre \<and> tail F = parent F
         \<and> (isabs (getcwd E) \<longrightarrow> isabs (parent F) \<and> normpath (parent F) = parent F)"
    using pre F by blast
next
  assume h: "paths = None \<or> paths = Some []"
  have cp: "commonprefix [''.''] = Inr ''.''"
    by (simp add: commonprefix_def)
  obtain F where F: "ConfigFileFinder_init E prog paths = Inr F"
      "parent F = abspath (getcwd E) ''.''" "tail F = parent F"
    using h cp by (auto simp: ConfigFileFinder_init_def Let_def)
  have "isabs (getcwd E) \<longrightarrow> parent F = normpath (getcwd E)"
    using abspath_dot F(2) by simp
  then show "\<exists>F. ConfigFileFinder_init E prog paths = Inr F
         \<and> parent F = abspath (getcwd E) ''.'' \<and> tail F = parent F
         \<and> (isabs (getcwd E) \<longrightarrow> parent F = normpath (getcwd E))"
    using F by blast
qed

text \<open>
  C8, counterexample. For the input paths \<^verbatim>\<open>/a/bc\<close> and \<^verbatim>\<open>/a/bd\<close> the constructor's
  common ancestor is \<^verbatim>\<open>/a/b\<close>, the longest common prefix of the two strings; the longest
  shared directory prefix is \<^verbatim>\<open>/a\<close>.
\<close>

theorem common_ancestor_not_a_directory_counterexample:
  "map_sum id parent
     (ConfigFileFinder_init (demo_env fs_empty) ''flake8'' (Some [''/a/bc'', ''/a/bd'']))
     = Inr ''/a/b''
   \<and> spec_common_directory [''/a/bc'', ''/a/bd''] = ''/a''
   \<and> map_sum id parent
     (ConfigFileFinder_init (demo_env fs_empty) ''flake8'' (Some [''/a/bc'', ''/a/bd'']))
     \<noteq> Inr (spec_common_directory [''/a/bc'', ''/a/bd''])"
  by code_simp

text \<open>
  C8, witness: \<^verbatim>\<open>/a/b\<close> and \<^verbatim>\<open>/a/c\<close> share the string prefix \<^verbatim>\<open>/a/\<close>, which resolves to
  \<^verbatim>\<open>/a\<close>; the empty list gives the working directory \<^verbatim>\<open>/\<close>.
\<close>

theorem common_ancestor_is_string_prefix_witness:
  "isabs (getcwd (demo_env fs_empty))
   \<and> commonprefix [''/a/b'', ''/a/c''] = Inr ''/a/''
   \<and> prefix ''/a/'' ''/a/b'' \<and> prefix ''/a/'' ''/a/c''
   \<and> map_sum id parent
        (ConfigFileFinder_init (demo_env fs_empty) ''flake8'' (Some [''/a/b'', ''/a/c'']))
       = Inr ''/a''
   \<and> map_sum id parent (ConfigFileFinder_init (demo_env fs_empty) ''flake8'' (Some []))
       = Inr ''/''
   \<and> map_sum id parent (ConfigFileFinder_init (demo_env fs_empty) ''flake8'' None)
       = Inr ''/''"
proof -
  have c: "commonprefix [''/a/b'', ''/a/c''] = Inr ''/a/''"
    by code_simp
  have n: "abspath (getcwd (demo_env fs_empty)) ''/a/'' = ''/a''"
    "abspath (getcwd (demo_env fs_empty)) ''.'' = ''/''"
    by code_simp+
  have "\<exists>F. ConfigFileFinder_init (demo_env fs_empty) ''flake8'' (Some [''/a/b'', ''/a/c'']) = Inr F
          \<and> parent F = ''/a''"
    using common_ancestor_is_string_prefix
            [of "Some [''/a/b'', ''/a/c'']" "[''/a/b'', ''/a/c'']" "demo_env fs_empty" "''flake8''"]
          c n(1)
    by auto
  moreover have "\<exists>F. ConfigFileFinder_init (demo_env fs_empty) ''flake8'' (Some []) = Inr F
          \<and> parent F = ''/''"
    using common_ancestor_is_string_prefix
            [of "Some []" "[]" "demo_env fs_empty" "''flake8''"] n(2)
    by auto
  moreover have "\<exists>F. ConfigFileFinder_init (demo_env fs_empty) ''flake8'' None = Inr F
          \<and> parent F = ''/''"
    using common_ancestor_is_string_prefix
            [of None "[]" "demo_env fs_empty" "''flake8''"] n(2)
    by auto
  moreover have "isabs (getcwd (demo_env fs_empty))"
    by (simp add: demo_env_def isabs_def)
  ultimately show ?thesis
    using c by auto
qed

end
